theory Spec2Isabelle
  imports Main "HOL-Library.Word" "HOL-Library.Signed_Division"
begin

unbundle bit_operations_syntax

section \<open>Common types of package ping\<close>

text \<open>
  \<^verbatim>\<open>time.Time\<close> and \<^verbatim>\<open>time.Duration\<close> are counted in nanoseconds. Both are modelled
  as mathematical integers: the scheduler only adds and compares them, and a product
  \<^verbatim>\<open>count * timeout\<close> leaves the 64-bit range of Go only in a run that has lasted
  more than 140 years. The one narrowing conversion of the source, \<^verbatim>\<open>uint32(...)\<close>
  in the Windows transport, is modelled with a 32-bit word.

  \<^verbatim>\<open>net.IP\<close> is a byte slice. Go's \<^verbatim>\<open>error\<close> values are opaque; the model gives one
  constructor to every place where the source creates an error, and wraps an error
  that comes from a library or from the operating system in \<open>LibError\<close>.
\<close>

type_synonym Time = int
type_synonym Duration = int
type_synonym byte = "8 word"
type_synonym IP = "byte list"

definition Millisecond :: Duration where
  "Millisecond = 1000000"

definition Second :: Duration where
  "Second = 1000000000"

datatype error =
    LibError string
  | FailedToResolve string error
  | NoIPv4AddressFound string
  | UnexpectedICMPMessageType nat
  | FailedToLoadDLL error
  | FailedToFindProc string error
  | IcmpCreateFileFailed error
  | IcmpSendEchoFailed error

record HostInfo =
  Hostname :: string
  IPAddr :: IP

section \<open>ResolveHosts\<close>

text \<open>
  \<^verbatim>\<open>net.LookupIP\<close> and \<^verbatim>\<open>IP.To4\<close> belong to Go's standard library. \<open>ResolveHosts\<close>
  takes both as parameters: \<open>LookupIP\<close> answers a host name with an error or a list
  of addresses, \<open>To4\<close> gives the 4-byte form of an address or \<open>None\<close> (Go's nil).
  \<open>net_To4\<close> follows the library's function and serves as the instance at which
  the theorems are exercised.
\<close>

definition net_To4 :: "IP \<Rightarrow> IP option" where
  "net_To4 ip =
     (if length ip = 4 then Some ip
      else if length ip = 16 \<and> take 10 ip = replicate 10 0 \<and> ip ! 10 = 255 \<and> ip ! 11 = 255
      then Some (drop 12 ip)
      else None)"

text \<open>
  The inner loop of \<^verbatim>\<open>ResolveHosts\<close>: \<^verbatim>\<open>ipv4Addr\<close> starts as nil and takes the first
  address whose \<^verbatim>\<open>To4()\<close> is not nil; the loop then breaks.
\<close>

fun firstIPv4 :: "(IP \<Rightarrow> IP option) \<Rightarrow> IP list \<Rightarrow> IP option" where
  "firstIPv4 To4 [] = None"
| "firstIPv4 To4 (ip # ips) = (if To4 ip \<noteq> None then Some ip else firstIPv4 To4 ips)"

text \<open>
  The outer loop, with the slice \<^verbatim>\<open>resolved\<close> as accumulator. Go returns the pair
  (slice, error); both error returns give back the nil slice, which is \<open>[]\<close> here.
\<close>

fun ResolveHosts_loop ::
  "(string \<Rightarrow> error + IP list) \<Rightarrow> (IP \<Rightarrow> IP option) \<Rightarrow> string list \<Rightarrow> HostInfo list
     \<Rightarrow> HostInfo list \<times> error option" where
  "ResolveHosts_loop LookupIP To4 [] resolved = (resolved, None)"
| "ResolveHosts_loop LookupIP To4 (host # hosts) resolved =
     (case LookupIP host of
        Inl err \<Rightarrow> ([], Some (FailedToResolve host err))
      | Inr ips \<Rightarrow>
          (case firstIPv4 To4 ips of
             None \<Rightarrow> ([], Some (NoIPv4AddressFound host))
           | Some ipv4Addr \<Rightarrow>
               ResolveHosts_loop LookupIP To4 hosts
                 (resolved @ [\<lparr>Hostname = host, IPAddr = ipv4Addr\<rparr>])))"

definition ResolveHosts ::
  "(string \<Rightarrow> error + IP list) \<Rightarrow> (IP \<Rightarrow> IP option) \<Rightarrow> string list
     \<Rightarrow> HostInfo list \<times> error option" where
  "ResolveHosts LookupIP To4 hosts = ResolveHosts_loop LookupIP To4 hosts []"

text \<open>
  What the claims call a resolvable name, and the first IPv4 address of an answer:
  the address at which the answer splits into a prefix without IPv4 addresses, the
  address itself, and a rest.
\<close>

definition resolvable :: "(string \<Rightarrow> error + IP list) \<Rightarrow> (IP \<Rightarrow> IP option) \<Rightarrow> string \<Rightarrow> bool" where
  "resolvable LookupIP To4 host =
     (case LookupIP host of Inl err \<Rightarrow> False | Inr ips \<Rightarrow> list_ex (\<lambda>ip. To4 ip \<noteq> None) ips)"

definition is_first_IPv4 :: "(IP \<Rightarrow> IP option) \<Rightarrow> IP list \<Rightarrow> IP \<Rightarrow> bool" where
  "is_first_IPv4 To4 ips a =
     (\<exists>pre post. ips = pre @ a # post \<and> To4 a \<noteq> None \<and> list_all (\<lambda>q. To4 q = None) pre)"

text \<open>A small name service for exercising the theorems.\<close>

definition loopback6 :: IP where
  "loopback6 = [0, 0, 0, 0, 0, 0, 0, 0, 0, 0, 0, 0, 0, 0, 0, 1]"

definition example_dns :: "string \<Rightarrow> error + IP list" where
  "example_dns host =
     (if host = ''localhost'' then Inr (loopback6 # [127, 0, 0, 1] # [])
      else if host = ''router'' then Inr ([192, 168, 0, 1] # [192, 168, 0, 2] # [])
      else if host = ''v6only'' then Inr (loopback6 # [])
      else Inl (LibError ''no such host''))"

section \<open>The round scheduler: monitorHosts\<close>

text \<open>
  \<^verbatim>\<open>monitorHosts\<close> works on the \<^verbatim>\<open>Pinger\<close> interface and on the clock. The model takes
  them as a record of operations over a world \<open>'w\<close> (everything outside the program)
  and a pinger value \<open>'p\<close>:
  \<^item> \<open>ping_New\<close>, \<open>Ping\<close> and \<open>Close\<close> are \<^verbatim>\<open>ping.New\<close> and the two methods of the
    interface;
  \<^item> \<open>time_Now\<close> reads the clock of a world, \<open>time_Sleep\<close> is \<^verbatim>\<open>time.Sleep\<close>.
  \<open>Ping\<close> and \<open>time_Sleep\<close> block. The program installs no signal handler, so a
  termination signal that arrives while one of them blocks ends the process inside
  the call: the call does not return, which is the value \<open>None\<close>.
\<close>

record ('p, 'w) runtime =
  ping_New :: "'w \<Rightarrow> (error + 'p) \<times> 'w"
  Ping :: "'p \<Rightarrow> IP \<Rightarrow> Duration \<Rightarrow> 'w \<Rightarrow> ((error + Duration) \<times> 'w) option"
  Close :: "'p \<Rightarrow> 'w \<Rightarrow> error option \<times> 'w"
  time_Now :: "'w \<Rightarrow> Time"
  time_Sleep :: "Duration \<Rightarrow> 'w \<Rightarrow> 'w option"

text \<open>
  What a run leaves behind. \<open>line\<close> is the printed line of a round, as the list
  \<^verbatim>\<open>parts\<close> before \<^verbatim>\<open>strings.Join\<close> (the colour codes and the clock format are left
  out). The other fields of \<open>round\<close> and the list \<open>calls\<close> are bookkeeping of the
  model: the value of \<^verbatim>\<open>count\<close> and of \<^verbatim>\<open>nextPingTime\<close> in that round, the clock
  when the wait of the round was over, and every call the scheduler made on the
  runtime, in order. Debug output goes to standard error and is not modelled.
\<close>

datatype part = Timestamp Time | Green string | Red string

datatype call = CallNew | CallSleep Duration | CallPing IP Duration | CallClose

record round =
  index :: int
  target :: Time
  started :: Time
  line :: "part list"

record 'w mstate =
  world :: 'w
  count :: int
  rounds :: "round list"
  calls :: "call list"

text \<open>
  How a run ends: \<^verbatim>\<open>monitorHosts\<close> returned (its deferred \<^verbatim>\<open>Close\<close> has run), the
  process left through \<^verbatim>\<open>os.Exit(1)\<close>, the process was ended by a signal, or the
  loop is still going after the number of rounds the model was asked to follow.
\<close>

datatype 'w outcome =
    Returned "'w mstate"
  | Exit1 "'w mstate"
  | Killed "'w mstate"
  | Running "'w mstate"


text \<open>Lines 108 to 112: wait for the target time of the round.\<close>

definition wait_for_round ::
  "('p, 'w) runtime \<Rightarrow> Time \<Rightarrow> Duration \<Rightarrow> 'w mstate \<Rightarrow> 'w mstate + 'w mstate" where
  "wait_for_round rt start timeout st =
     (let nextPingTime = start + count st * timeout;
          wait = nextPingTime - time_Now rt (world st)
      in if wait > 0 then
           (case time_Sleep rt wait (world st) of
              None \<Rightarrow> Inl (st\<lparr>calls := calls st @ [CallSleep wait]\<rparr>)
            | Some w \<Rightarrow> Inr (st\<lparr>world := w, calls := calls st @ [CallSleep wait]\<rparr>))
         else Inr st)"

text \<open>Lines 123 to 132: ping each host in turn. \<open>Inl\<close> is the process ended mid-probe.\<close>

fun ping_hosts ::
  "('p, 'w) runtime \<Rightarrow> 'p \<Rightarrow> Duration \<Rightarrow> HostInfo list \<Rightarrow> part list \<Rightarrow> 'w mstate
     \<Rightarrow> 'w mstate + (part list \<times> 'w mstate)" where
  "ping_hosts rt pinger timeout [] parts st = Inr (parts, st)"
| "ping_hosts rt pinger timeout (host # hosts) parts st =
     (case Ping rt pinger (IPAddr host) timeout (world st) of
        None \<Rightarrow> Inl (st\<lparr>calls := calls st @ [CallPing (IPAddr host) timeout]\<rparr>)
      | Some (res, w) \<Rightarrow>
          (case res of
             Inl err \<Rightarrow>
               ping_hosts rt pinger timeout hosts (parts @ [Red (Hostname host)])
                 (st\<lparr>world := w, calls := calls st @ [CallPing (IPAddr host) timeout]\<rparr>)
           | Inr rtt \<Rightarrow>
               ping_hosts rt pinger timeout hosts (parts @ [Green (Hostname host)])
                 (st\<lparr>world := w, calls := calls st @ [CallPing (IPAddr host) timeout]\<rparr>)))"

text \<open>One pass through the body of the \<^verbatim>\<open>for\<close> loop, up to and including \<^verbatim>\<open>count++\<close>.\<close>

definition round_body ::
  "('p, 'w) runtime \<Rightarrow> 'p \<Rightarrow> Duration \<Rightarrow> bool \<Rightarrow> HostInfo list \<Rightarrow> Time \<Rightarrow> 'w mstate
     \<Rightarrow> 'w mstate + 'w mstate" where
  "round_body rt pinger timeout plainFlag resolvedHosts start st =
     (case wait_for_round rt start timeout st of
        Inl dead \<Rightarrow> Inl dead
      | Inr st1 \<Rightarrow>
          (let parts = (if \<not> plainFlag then [Timestamp (time_Now rt (world st1))] else [])
           in case ping_hosts rt pinger timeout resolvedHosts parts st1 of
                Inl dead \<Rightarrow> Inl dead
              | Inr (parts', st2) \<Rightarrow>
                  Inr (st2\<lparr>rounds := rounds st2 @
                              [\<lparr>index = count st, target = start + count st * timeout,
                                started = time_Now rt (world st1), line = parts'\<rparr>],
                           count := count st2 + 1\<rparr>)))"

text \<open>
  The \<^verbatim>\<open>for\<close> loop has no condition and can run forever, so the model follows it
  for a given number of rounds.
\<close>

datatype 'w loop_exit = Broke "'w mstate" | Dead "'w mstate" | Going "'w mstate"

fun monitor_loop ::
  "nat \<Rightarrow> ('p, 'w) runtime \<Rightarrow> 'p \<Rightarrow> int \<Rightarrow> Duration \<Rightarrow> bool \<Rightarrow> HostInfo list \<Rightarrow> Time
     \<Rightarrow> 'w mstate \<Rightarrow> 'w loop_exit" where
  "monitor_loop 0 rt pinger countFlag timeout plainFlag resolvedHosts start st = Going st"
| "monitor_loop (Suc fuel) rt pinger countFlag timeout plainFlag resolvedHosts start st =
     (case round_body rt pinger timeout plainFlag resolvedHosts start st of
        Inl dead \<Rightarrow> Dead dead
      | Inr st' \<Rightarrow>
          if countFlag > 0 \<and> count st' \<ge> countFlag then Broke st'
          else monitor_loop fuel rt pinger countFlag timeout plainFlag resolvedHosts start st')"

definition monitorHosts ::
  "nat \<Rightarrow> ('p, 'w) runtime \<Rightarrow> int \<Rightarrow> Duration \<Rightarrow> bool \<Rightarrow> HostInfo list \<Rightarrow> 'w \<Rightarrow> 'w outcome" where
  "monitorHosts fuel rt countFlag timeout plainFlag resolvedHosts w =
     (if countFlag = 0 then Returned \<lparr>world = w, count = 0, rounds = [], calls = []\<rparr>
      else
        (case ping_New rt w of (res, w1) \<Rightarrow>
           (case res of
              Inl err \<Rightarrow> Exit1 \<lparr>world = w1, count = 0, rounds = [], calls = [CallNew]\<rparr>
            | Inr pinger \<Rightarrow>
                (case monitor_loop fuel rt pinger countFlag timeout plainFlag resolvedHosts
                        (time_Now rt w1)
                        \<lparr>world = w1, count = 0, rounds = [], calls = [CallNew]\<rparr> of
                   Broke st \<Rightarrow>
                     Returned (st\<lparr>world := snd (Close rt pinger (world st)),
                                  calls := calls st @ [CallClose]\<rparr>)
                 | Dead st \<Rightarrow> Killed st
                 | Going st \<Rightarrow> Running st))))"

text \<open>What the claims about the scheduler assume of the runtime.\<close>

definition uninterrupted :: "('p, 'w) runtime \<Rightarrow> bool" where
  "uninterrupted rt \<longleftrightarrow>
     (\<forall>p ip d w. Ping rt p ip d w \<noteq> None) \<and> (\<forall>d w. time_Sleep rt d w \<noteq> None)"

definition sleep_contract :: "('p, 'w) runtime \<Rightarrow> bool" where
  "sleep_contract rt \<longleftrightarrow>
     (\<forall>d w. case time_Sleep rt d w of
               None \<Rightarrow> True
             | Some w' \<Rightarrow> time_Now rt w + d \<le> time_Now rt w')"

text \<open>
  Bookkeeping for the proofs: the calls a round may add, the state in which a loop
  was left, and the invariant of the loop (\<^verbatim>\<open>count\<close> is the number of rounds done,
  the rounds carry the indices from 0 upwards, and every round has its target time
  and did not start before it when \<^verbatim>\<open>time.Sleep\<close> keeps its contract).
\<close>

definition ping_or_sleep :: "Duration \<Rightarrow> call \<Rightarrow> bool" where
  "ping_or_sleep timeout c \<longleftrightarrow> (\<exists>ip. c = CallPing ip timeout) \<or> (\<exists>d. c = CallSleep d)"

fun exit_state :: "'w loop_exit \<Rightarrow> 'w mstate" where
  "exit_state (Broke st) = st"
| "exit_state (Dead st) = st"
| "exit_state (Going st) = st"

definition paced :: "('p, 'w) runtime \<Rightarrow> Time \<Rightarrow> Duration \<Rightarrow> 'w mstate \<Rightarrow> bool" where
  "paced rt start timeout st \<longleftrightarrow>
     count st = int (length (rounds st)) \<and>
     map index (rounds st) = map int [0..<length (rounds st)] \<and>
     (\<forall>r \<in> set (rounds st). target r = start + index r * timeout \<and>
                              (sleep_contract rt \<longrightarrow> target r \<le> started r))"

text \<open>
  A simulated runtime for exercising the theorems. Its world is a clock, the number
  of probes made and the number of \<^verbatim>\<open>Close\<close> calls made. Loopback answers after one
  millisecond, every other address runs into the timeout. The parameter \<open>sigint\<close>
  is the probe (counted from 0) during which the operator's interrupt arrives, if
  one arrives at all.
\<close>

record sim =
  sim_clock :: Time
  sim_probes :: nat
  sim_closed :: nat

definition sim_runtime :: "nat option \<Rightarrow> (unit, sim) runtime" where
  "sim_runtime sigint =
     \<lparr>ping_New = (\<lambda>w. (Inr (), w)),
      Ping = (\<lambda>p ip d w.
        if sigint = Some (sim_probes w) then None
        else if ip = [127, 0, 0, 1]
        then Some (Inr Millisecond, w\<lparr>sim_clock := sim_clock w + Millisecond,
                                       sim_probes := Suc (sim_probes w)\<rparr>)
        else Some (Inl (LibError ''i/o timeout''), w\<lparr>sim_clock := sim_clock w + d,
                                                     sim_probes := Suc (sim_probes w)\<rparr>)),
      Close = (\<lambda>p w. (None, w\<lparr>sim_closed := Suc (sim_closed w)\<rparr>)),
      time_Now = sim_clock,
      time_Sleep = (\<lambda>d w. Some (w\<lparr>sim_clock := sim_clock w + d\<rparr>))\<rparr>"

definition sim_hosts :: "HostInfo list" where
  "sim_hosts = [\<lparr>Hostname = ''localhost'', IPAddr = [127, 0, 0, 1]\<rparr>,
                \<lparr>Hostname = ''testnet'', IPAddr = [192, 0, 2, 1]\<rparr>]"

definition sim_start :: sim where
  "sim_start = \<lparr>sim_clock = 0, sim_probes = 0, sim_closed = 0\<rparr>"

section \<open>The round scheduler as the specification words it\<close>

text \<open>
  Section 4.5 of the specification gives the scheduler two durations, the
  \<^verbatim>\<open>interval\<close> between rounds and the \<^verbatim>\<open>timeout\<close> of a probe, and has it yield
  rounds of outcomes. The definitions of this section follow those words and share
  nothing with the definitions made from \<^verbatim>\<open>monitorHosts\<close> but the runtime: record
  \<^verbatim>\<open>start = now()\<close>; for the round of index \<open>i\<close> compute
  \<^verbatim>\<open>target = start + i * interval\<close> and, if \<^verbatim>\<open>now() < target\<close>, suspend until \<^verbatim>\<open>target\<close>;
  probe every host in order with \<^verbatim>\<open>timeout\<close>; emit the round; stop if
  \<^verbatim>\<open>count > 0\<close> and \<^verbatim>\<open>i + 1 \<ge> count\<close>. The transport is constructed before the first
  round and released when the rounds are done. Section 5 asks for the release on an
  interrupt as well; whether that happens is the parameter \<open>releaseOnInterrupt\<close>,
  true for the specification. The source does not release then (claim C2), so the
  cadence of the source is compared with the parameter false.
\<close>

record PingOutcome =
  po_host :: HostInfo
  po_success :: bool
  po_rtt :: Duration
  po_failureReason :: "error option"

record Round =
  r_index :: int
  r_startTime :: Time
  r_outcomes :: "PingOutcome list"

datatype run_end = Completed | ConstructionFailed | Interrupted | StillRunning

fun spec_probe_hosts ::
  "('p, 'w) runtime \<Rightarrow> 'p \<Rightarrow> Duration \<Rightarrow> HostInfo list \<Rightarrow> PingOutcome list \<Rightarrow> 'w
     \<Rightarrow> 'w + (PingOutcome list \<times> 'w)" where
  "spec_probe_hosts rt transport probeTimeout [] outs w = Inr (outs, w)"
| "spec_probe_hosts rt transport probeTimeout (h # hs) outs w =
     (case Ping rt transport (IPAddr h) probeTimeout w of
        None \<Rightarrow> Inl w
      | Some (res, w') \<Rightarrow>
          (case res of
             Inr t \<Rightarrow>
               spec_probe_hosts rt transport probeTimeout hs
                 (outs @ [\<lparr>po_host = h, po_success = True, po_rtt = t,
                           po_failureReason = None\<rparr>]) w'
           | Inl e \<Rightarrow>
               spec_probe_hosts rt transport probeTimeout hs
                 (outs @ [\<lparr>po_host = h, po_success = False, po_rtt = 0,
                           po_failureReason = Some e\<rparr>]) w'))"

fun spec_rounds ::
  "nat \<Rightarrow> ('p, 'w) runtime \<Rightarrow> 'p \<Rightarrow> int \<Rightarrow> Duration \<Rightarrow> Duration \<Rightarrow> HostInfo list \<Rightarrow> Time
     \<Rightarrow> int \<Rightarrow> Round list \<Rightarrow> 'w \<Rightarrow> run_end \<times> 'w \<times> Round list" where
  "spec_rounds 0 rt transport cnt interval probeTimeout hosts start i emitted w =
     (StillRunning, w, emitted)"
| "spec_rounds (Suc fuel) rt transport cnt interval probeTimeout hosts start i emitted w =
     (case (if time_Now rt w < start + i * interval
            then time_Sleep rt (start + i * interval - time_Now rt w) w
            else Some w) of
        None \<Rightarrow> (Interrupted, w, emitted)
      | Some w1 \<Rightarrow>
          (case spec_probe_hosts rt transport probeTimeout hosts [] w1 of
             Inl w2 \<Rightarrow> (Interrupted, w2, emitted)
           | Inr (outs, w2) \<Rightarrow>
               if cnt > 0 \<and> i + 1 \<ge> cnt
               then (Completed, w2,
                     emitted @ [\<lparr>r_index = i, r_startTime = time_Now rt w1, r_outcomes = outs\<rparr>])
               else spec_rounds fuel rt transport cnt interval probeTimeout hosts start (i + 1)
                      (emitted @ [\<lparr>r_index = i, r_startTime = time_Now rt w1,
                                   r_outcomes = outs\<rparr>]) w2))"

definition spec_RoundScheduler ::
  "bool \<Rightarrow> nat \<Rightarrow> ('p, 'w) runtime \<Rightarrow> int \<Rightarrow> Duration \<Rightarrow> Duration \<Rightarrow> HostInfo list \<Rightarrow> 'w
     \<Rightarrow> run_end \<times> 'w \<times> Round list" where
  "spec_RoundScheduler releaseOnInterrupt fuel rt cnt interval probeTimeout hosts w =
     (if cnt = 0 then (Completed, w, [])
      else
        (case ping_New rt w of (res, w1) \<Rightarrow>
           (case res of
              Inl e \<Rightarrow> (ConstructionFailed, w1, [])
            | Inr transport \<Rightarrow>
                (case spec_rounds fuel rt transport cnt interval probeTimeout hosts
                        (time_Now rt w1) 0 [] w1 of
                   (ending, w2, emitted) \<Rightarrow>
                     if ending = Completed \<or> (ending = Interrupted \<and> releaseOnInterrupt)
                     then (ending, snd (Close rt transport w2), emitted)
                     else (ending, w2, emitted)))))"

text \<open>
  What can be seen of a run from outside: how it ended, the world it left, and the
  lines printed. A round of the specification is printed as its start time (unless
  plain output was asked for) and the host names, green for success and red for
  failure.
\<close>

definition colour :: "PingOutcome \<Rightarrow> part" where
  "colour out =
     (if po_success out then Green (Hostname (po_host out)) else Red (Hostname (po_host out)))"

definition render :: "bool \<Rightarrow> Round \<Rightarrow> part list" where
  "render plainFlag r =
     (if \<not> plainFlag then [Timestamp (r_startTime r)] else []) @ map colour (r_outcomes r)"

definition rendered :: "bool \<Rightarrow> run_end \<times> 'w \<times> Round list \<Rightarrow> run_end \<times> 'w \<times> part list list" where
  "rendered plainFlag run =
     (case run of (ending, w, emitted) \<Rightarrow> (ending, w, map (render plainFlag) emitted))"

fun observable :: "'w outcome \<Rightarrow> run_end \<times> 'w \<times> part list list" where
  "observable (Returned st) = (Completed, world st, map line (rounds st))"
| "observable (Exit1 st) = (ConstructionFailed, world st, map line (rounds st))"
| "observable (Killed st) = (Interrupted, world st, map line (rounds st))"
| "observable (Running st) = (StillRunning, world st, map line (rounds st))"

fun observable_loop :: "'w loop_exit \<Rightarrow> run_end \<times> 'w \<times> part list list" where
  "observable_loop (Broke st) = (Completed, world st, map line (rounds st))"
| "observable_loop (Dead st) = (Interrupted, world st, map line (rounds st))"
| "observable_loop (Going st) = (StillRunning, world st, map line (rounds st))"

section \<open>The Unix transport: unixPinger\<close>

text \<open>
  An ICMP message as package \<^verbatim>\<open>golang.org/x/net/icmp\<close> has it. The type is the
  number of the first byte of the packet (\<^verbatim>\<open>ipv4.ICMPType\<close>).
\<close>

record Echo =
  ID :: int
  Seq :: int
  Data :: "byte list"

datatype MessageBody = EchoBody Echo | RawBody "byte list"

record Message =
  Type :: nat
  Code :: int
  Checksum :: int
  Body :: MessageBody

definition ICMPTypeEcho :: nat where
  "ICMPTypeEcho = 8"

definition ICMPTypeEchoReply :: nat where
  "ICMPTypeEchoReply = 0"

definition ProtocolICMP :: nat where
  "ProtocolICMP = 1"

text \<open>
  The socket, the process and the ICMP library are outside the repository. The
  transport takes them as a record of operations over a world \<open>'w\<close>; a connection
  (\<^verbatim>\<open>*icmp.PacketConn\<close>) is a number. \<open>ReadFrom\<close> gets the size of the buffer and
  gives the bytes read (\<^verbatim>\<open>reply[:n]\<close>) with the address of the sender.
\<close>

record 'w unix_os =
  ListenPacket :: "string \<Rightarrow> string \<Rightarrow> 'w \<Rightarrow> (error + nat) \<times> 'w"
  SetDeadline :: "nat \<Rightarrow> Time \<Rightarrow> 'w \<Rightarrow> error option \<times> 'w"
  WriteTo :: "nat \<Rightarrow> byte list \<Rightarrow> IP \<Rightarrow> 'w \<Rightarrow> error option \<times> 'w"
  ReadFrom :: "nat \<Rightarrow> nat \<Rightarrow> 'w \<Rightarrow> (error + byte list \<times> IP) \<times> 'w"
  conn_Close :: "nat \<Rightarrow> 'w \<Rightarrow> error option \<times> 'w"
  Getpid :: "'w \<Rightarrow> int"
  Marshal :: "Message \<Rightarrow> byte list"
  ParseMessage :: "nat \<Rightarrow> byte list \<Rightarrow> error + Message"
  unix_Now :: "'w \<Rightarrow> Time"

text \<open>The struct holds a pointer to the connection; \<open>None\<close> is the nil pointer.\<close>

record unixPinger =
  conn :: "nat option"

definition unix_newPinger :: "'w unix_os \<Rightarrow> 'w \<Rightarrow> (error + unixPinger) \<times> 'w" where
  "unix_newPinger os w =
     (case ListenPacket os ''udp4'' [] w of (res, w1) \<Rightarrow>
        (case res of
           Inl err \<Rightarrow> (Inl err, w1)
         | Inr c \<Rightarrow> (Inr \<lparr>conn = Some c\<rparr>, w1)))"

text \<open>\<^verbatim>\<open>Close\<close> reads the field \<^verbatim>\<open>up.conn\<close> and never assigns it.\<close>

definition unixPinger_Close :: "'w unix_os \<Rightarrow> unixPinger \<Rightarrow> 'w \<Rightarrow> error option \<times> 'w" where
  "unixPinger_Close os up w =
     (case conn up of
        Some c \<Rightarrow> conn_Close os c w
      | None \<Rightarrow> (None, w))"

definition createICMPMessage :: "'w unix_os \<Rightarrow> int \<Rightarrow> int \<Rightarrow> byte list" where
  "createICMPMessage os ident seq =
     Marshal os \<lparr>Type = ICMPTypeEcho, Code = 0, Checksum = 0,
                 Body = EchoBody \<lparr>ID = ident, Seq = seq, Data = map (of_nat \<circ> of_char) ''ping''\<rparr>\<rparr>"

text \<open>
  \<^verbatim>\<open>Ping\<close>. The methods of \<^verbatim>\<open>*icmp.PacketConn\<close> answer a nil receiver with an error,
  which is the first case. \<^verbatim>\<open>time.Since(start)\<close> reads the clock of the world in which
  the read returned.
\<close>

definition unixPinger_Ping ::
  "'w unix_os \<Rightarrow> unixPinger \<Rightarrow> IP \<Rightarrow> Duration \<Rightarrow> 'w \<Rightarrow> (error + Duration) \<times> 'w" where
  "unixPinger_Ping os up ip timeout w =
     (case conn up of
        None \<Rightarrow> (Inl (LibError ''invalid connection''), w)
      | Some c \<Rightarrow>
          (case SetDeadline os c (unix_Now os w + timeout) w of
             (Some err, w1) \<Rightarrow> (Inl err, w1)
           | (None, w1) \<Rightarrow>
               (let msg = createICMPMessage os (Getpid os w1 AND 65535) 1
                in case WriteTo os c msg ip w1 of
                     (Some err, w2) \<Rightarrow> (Inl err, w2)
                   | (None, w2) \<Rightarrow>
                       (let start = unix_Now os w2
                        in case ReadFrom os c 1500 w2 of
                             (Inl err, w3) \<Rightarrow> (Inl err, w3)
                           | (Inr (reply, peer), w3) \<Rightarrow>
                               (case ParseMessage os ProtocolICMP reply of
                                  Inl err \<Rightarrow> (Inl err, w3)
                                | Inr rm \<Rightarrow>
                                    if Type rm = ICMPTypeEchoReply
                                    then (Inr (unix_Now os w3 - start), w3)
                                    else (Inl (UnexpectedICMPMessageType (Type rm)), w3))))))"

text \<open>
  A simulated socket layer for exercising the theorems. Its world has a clock, the
  process id, the open connections, the read deadline, the datagrams on their way
  to the socket (arrival time, sender, bytes) and the datagrams sent. Closing a
  connection that is closed already fails, as package \<^verbatim>\<open>net\<close> does with
  \<^verbatim>\<open>use of closed network connection\<close>. The parser reads echo messages as the
  library does and leaves every other body raw; the marshaller leaves the checksum
  to the kernel.
\<close>

record unix_world =
  uclock :: Time
  upid :: int
  open_conns :: "nat list"
  deadline :: Time
  inbox :: "(Time \<times> IP \<times> byte list) list"
  outbox :: "(IP \<times> byte list) list"

definition be16 :: "byte \<Rightarrow> byte \<Rightarrow> int" where
  "be16 hi lo = uint hi * 256 + uint lo"

definition sim_ParseMessage :: "nat \<Rightarrow> byte list \<Rightarrow> error + Message" where
  "sim_ParseMessage proto b =
     (if length b < 4 then Inl (LibError ''message too short'')
      else if proto \<noteq> ProtocolICMP then Inl (LibError ''invalid protocol'')
      else if unat (b ! 0) = ICMPTypeEcho \<or> unat (b ! 0) = ICMPTypeEchoReply then
        (if length b < 8 then Inl (LibError ''message too short'')
         else Inr \<lparr>Type = unat (b ! 0), Code = uint (b ! 1), Checksum = be16 (b ! 2) (b ! 3),
                   Body = EchoBody \<lparr>ID = be16 (b ! 4) (b ! 5), Seq = be16 (b ! 6) (b ! 7),
                                    Data = drop 8 b\<rparr>\<rparr>)
      else Inr \<lparr>Type = unat (b ! 0), Code = uint (b ! 1), Checksum = be16 (b ! 2) (b ! 3),
                Body = RawBody (drop 4 b)\<rparr>)"

definition sim_Marshal :: "Message \<Rightarrow> byte list" where
  "sim_Marshal m =
     [of_nat (Type m), of_int (Code m), 0, 0] @
     (case Body m of
        EchoBody e \<Rightarrow> [of_int (ID e div 256), of_int (ID e), of_int (Seq e div 256), of_int (Seq e)]
                       @ Data e
      | RawBody d \<Rightarrow> d)"

definition sim_unix :: "unix_world unix_os" where
  "sim_unix =
     \<lparr>ListenPacket = (\<lambda>network address w.
        (Inr (length (open_conns w)), w\<lparr>open_conns := open_conns w @ [length (open_conns w)]\<rparr>)),
      SetDeadline = (\<lambda>c t w.
        if c \<in> set (open_conns w) then (None, w\<lparr>deadline := t\<rparr>)
        else (Some (LibError ''use of closed network connection''), w)),
      WriteTo = (\<lambda>c b ip w.
        if c \<in> set (open_conns w) then (None, w\<lparr>outbox := outbox w @ [(ip, b)]\<rparr>)
        else (Some (LibError ''use of closed network connection''), w)),
      ReadFrom = (\<lambda>c n w.
        if c \<notin> set (open_conns w) then (Inl (LibError ''use of closed network connection''), w)
        else (case inbox w of
                [] \<Rightarrow> (Inl (LibError ''i/o timeout''), w\<lparr>uclock := max (uclock w) (deadline w)\<rparr>)
              | (t, peer, b) # rest \<Rightarrow>
                  if t \<le> deadline w
                  then (Inr (take n b, peer), w\<lparr>uclock := max (uclock w) t, inbox := rest\<rparr>)
                  else (Inl (LibError ''i/o timeout''),
                        w\<lparr>uclock := max (uclock w) (deadline w)\<rparr>))),
      conn_Close = (\<lambda>c w.
        if c \<in> set (open_conns w) then (None, w\<lparr>open_conns := removeAll c (open_conns w)\<rparr>)
        else (Some (LibError ''use of closed network connection''), w)),
      Getpid = upid,
      Marshal = sim_Marshal,
      ParseMessage = sim_ParseMessage,
      unix_Now = uclock\<rparr>"

text \<open>
  A world in which one datagram is on its way: an echo reply (type 0) sent by
  10.9.9.9 with identifier 7, sequence number 99 and the payload \<open>[1, 2, 3]\<close>,
  arriving 5 ms after the start.
\<close>

definition stray_reply :: "byte list" where
  "stray_reply = [0, 0, 0, 0, 0, 7, 0, 99, 1, 2, 3]"

definition sim_unix_start :: unix_world where
  "sim_unix_start =
     \<lparr>uclock = 0, upid = 4242, open_conns = [], deadline = 0,
      inbox = [(5 * Millisecond, [10, 9, 9, 9], stray_reply)], outbox = []\<rparr>"

section \<open>The Windows transport: windowsPinger\<close>

text \<open>The two structures of the helper API, with the fields of the source.\<close>

record ipOptionInformation =
  TTL :: "8 word"
  TOS :: "8 word"
  Flags :: "8 word"
  OptionsSize :: "8 word"
  OptionsData :: nat

record icmpEchoReply =
  Address :: "byte list"
  Status :: "32 word"
  RoundTripTime :: "32 word"
  DataSize :: "16 word"
  Reserved :: "16 word"
  ReplyData :: nat
  Options :: ipOptionInformation

text \<open>
  The loader and the helper library are outside the repository; the transport takes
  them as a record of operations over a world \<open>'w\<close>. A DLL, a procedure and a handle
  are numbers (\<^verbatim>\<open>uintptr\<close>). \<^verbatim>\<open>proc.Call\<close> gives back the first result of the procedure
  and the last error. The source hands \<^verbatim>\<open>IcmpSendEcho\<close> the address and the size of a
  reply buffer and afterwards reads the buffer as an \<^verbatim>\<open>icmpEchoReply\<close>; in the model
  the call gets the size and gives back the structure. Its arguments are, in the
  order of the source: handle, destination, request data, request size, options,
  reply size, timeout in milliseconds.
\<close>

record 'w win_os =
  LoadDLL :: "string \<Rightarrow> 'w \<Rightarrow> (error + nat) \<times> 'w"
  FindProc :: "nat \<Rightarrow> string \<Rightarrow> 'w \<Rightarrow> error + nat"
  dll_Release :: "nat \<Rightarrow> 'w \<Rightarrow> error option \<times> 'w"
  IcmpCreateFile :: "nat \<Rightarrow> 'w \<Rightarrow> (nat \<times> error) \<times> 'w"
  IcmpCloseHandle :: "nat \<Rightarrow> nat \<Rightarrow> 'w \<Rightarrow> 'w"
  IcmpSendEcho :: "nat \<Rightarrow> nat \<Rightarrow> 32 word \<Rightarrow> byte list \<Rightarrow> nat \<Rightarrow> nat \<Rightarrow> nat \<Rightarrow> 32 word \<Rightarrow> 'w
                     \<Rightarrow> (nat \<times> icmpEchoReply \<times> error) \<times> 'w"
  win_To4 :: "IP \<Rightarrow> IP option"

record windowsPinger =
  handle :: nat
  dll :: nat
  proc :: nat

definition win_newPinger :: "'w win_os \<Rightarrow> 'w \<Rightarrow> (error + windowsPinger) \<times> 'w" where
  "win_newPinger os w =
     (case LoadDLL os ''iphlpapi.dll'' w of (res, w1) \<Rightarrow>
        (case res of
           Inl err \<Rightarrow> (Inl (FailedToLoadDLL err), w1)
         | Inr d \<Rightarrow>
             (case FindProc os d ''IcmpCreateFile'' w1 of
                Inl err \<Rightarrow> (Inl (FailedToFindProc ''IcmpCreateFile'' err), snd (dll_Release os d w1))
              | Inr p \<Rightarrow>
                  (case IcmpCreateFile os p w1 of ((h, err), w2) \<Rightarrow>
                     if h = 0 then (Inl (IcmpCreateFileFailed err), snd (dll_Release os d w2))
                     else (Inr \<lparr>handle = h, dll = d, proc = p\<rparr>, w2)))))"

text \<open>\<^verbatim>\<open>Close\<close> reads the fields \<^verbatim>\<open>wp.handle\<close> and \<^verbatim>\<open>wp.dll\<close> and never assigns them.\<close>

definition windowsPinger_Close :: "'w win_os \<Rightarrow> windowsPinger \<Rightarrow> 'w \<Rightarrow> error option \<times> 'w" where
  "windowsPinger_Close os wp w =
     (let w1 = (if handle wp \<noteq> 0 then
                  (case FindProc os (dll wp) ''IcmpCloseHandle'' w of
                     Inr closeProc \<Rightarrow> IcmpCloseHandle os closeProc (handle wp) w
                   | Inl err \<Rightarrow> w)
                else w)
      in dll_Release os (dll wp) w1)"

text \<open>
  \<^verbatim>\<open>timeout.Milliseconds()\<close> divides the 64-bit count of nanoseconds by a million and
  rounds towards zero; \<^verbatim>\<open>uint32(...)\<close> keeps the low 32 bits.
\<close>

definition Milliseconds :: "Duration \<Rightarrow> int" where
  "Milliseconds d = d sdiv 1000000"

definition timeoutMs_of :: "Duration \<Rightarrow> 32 word" where
  "timeoutMs_of timeout =
     (let timeoutMs = (word_of_int (Milliseconds timeout) :: 32 word)
      in if timeoutMs < 1 then 1 else timeoutMs)"

text \<open>\<^verbatim>\<open>binary.LittleEndian.Uint32\<close> on a slice of four bytes.\<close>

definition LittleEndian_Uint32 :: "byte list \<Rightarrow> 32 word" where
  "LittleEndian_Uint32 b =
     ucast (b ! 0) OR push_bit 8 (ucast (b ! 1)) OR push_bit 16 (ucast (b ! 2))
       OR push_bit 24 (ucast (b ! 3))"

text \<open>
  A call returns a value, returns an error, or panics. \<^verbatim>\<open>Ping\<close> panics when the
  address has no 4-byte form: \<^verbatim>\<open>ip.To4()\<close> is nil then, and \<^verbatim>\<open>Uint32\<close> indexes it.
\<close>

datatype 'a go_result = Ok 'a | Err error | Panic

definition sizeof_icmpEchoReply :: nat where
  "sizeof_icmpEchoReply = 40"

definition windowsPinger_Ping ::
  "'w win_os \<Rightarrow> windowsPinger \<Rightarrow> IP \<Rightarrow> Duration \<Rightarrow> 'w \<Rightarrow> Duration go_result \<times> 'w" where
  "windowsPinger_Ping os wp ip timeout w =
     (case FindProc os (dll wp) ''IcmpSendEcho'' w of
        Inl err \<Rightarrow> (Err (FailedToFindProc ''IcmpSendEcho'' err), w)
      | Inr sendProc \<Rightarrow>
          (let timeoutMs = timeoutMs_of timeout;
               data = map (of_nat \<circ> of_char) ''ping'' :: byte list;
               replySize = sizeof_icmpEchoReply + length data
           in case win_To4 os ip of
                None \<Rightarrow> (Panic, w)
              | Some ip4 \<Rightarrow>
                  (case IcmpSendEcho os sendProc (handle wp) (LittleEndian_Uint32 ip4) data
                          (length data) 0 replySize timeoutMs w of
                     ((ret, reply, err), w1) \<Rightarrow>
                       if ret = 0 then (Err (IcmpSendEchoFailed err), w1)
                       else (Ok (uint (RoundTripTime reply) * Millisecond), w1))))"

text \<open>
  A simulated helper library for exercising the theorems. Its world has the number
  of references the loader holds on \<^verbatim>\<open>iphlpapi.dll\<close>, the open ICMP handles, every
  handle ever passed to \<^verbatim>\<open>IcmpCloseHandle\<close>, and every timeout ever passed to
  \<^verbatim>\<open>IcmpSendEcho\<close>. A procedure is found while the library is loaded; releasing a
  library that is not loaded fails. Loopback (\<open>0x0100007F\<close>) answers in 2 ms with
  status 0; 10.0.0.1 (\<open>0x0100000A\<close>) lies behind a router that answers
  destination-unreachable, which the facility reports as one reply with status
  11003 (\<^verbatim>\<open>IP_DEST_HOST_UNREACHABLE\<close>); nothing else answers.
\<close>

record win_world =
  dll_refs :: nat
  icmp_handles :: "nat list"
  closed_handles :: "nat list"
  timeouts_passed :: "32 word list"

definition sim_reply :: "32 word \<Rightarrow> 32 word \<Rightarrow> icmpEchoReply" where
  "sim_reply st rtt =
     \<lparr>Address = [0, 0, 0, 0], Status = st, RoundTripTime = rtt, DataSize = 4, Reserved = 0,
      ReplyData = 0,
      Options = \<lparr>TTL = 64, TOS = 0, Flags = 0, OptionsSize = 0, OptionsData = 0\<rparr>\<rparr>"

definition sim_win :: "win_world win_os" where
  "sim_win =
     \<lparr>LoadDLL = (\<lambda>name w. (Inr 1, w\<lparr>dll_refs := Suc (dll_refs w)\<rparr>)),
      FindProc = (\<lambda>d name w.
        if dll_refs w > 0 then Inr (length name)
        else Inl (LibError ''The specified module could not be found.'')),
      dll_Release = (\<lambda>d w.
        if dll_refs w > 0 then (None, w\<lparr>dll_refs := dll_refs w - 1\<rparr>)
        else (Some (LibError ''The specified module could not be found.''), w)),
      IcmpCreateFile = (\<lambda>p w.
        ((Suc (length (icmp_handles w) + length (closed_handles w)), LibError ''''),
         w\<lparr>icmp_handles := icmp_handles w
              @ [Suc (length (icmp_handles w) + length (closed_handles w))]\<rparr>)),
      IcmpCloseHandle = (\<lambda>p h w.
        w\<lparr>icmp_handles := removeAll h (icmp_handles w),
          closed_handles := closed_handles w @ [h]\<rparr>),
      IcmpSendEcho = (\<lambda>p h dst data size opts replySize timeoutMs w.
        (if h \<notin> set (icmp_handles w) then (0, sim_reply 0 0, LibError ''The handle is invalid.'')
         else if dst = 0x0100007F then (1, sim_reply 0 2, LibError '''')
         else if dst = 0x0100000A then (1, sim_reply 11003 7, LibError '''')
         else (0, sim_reply 0 0, LibError ''The request timed out.''),
         w\<lparr>timeouts_passed := timeouts_passed w @ [timeoutMs]\<rparr>)),
      win_To4 = net_To4\<rparr>"

definition sim_win_start :: "nat \<Rightarrow> win_world" where
  "sim_win_start refs =
     \<lparr>dll_refs = refs, icmp_handles = [], closed_handles = [], timeouts_passed = []\<rparr>"

section \<open>Properties of ResolveHosts\<close>

lemma firstIPv4_None: "firstIPv4 To4 ips = None \<longleftrightarrow> \<not> list_ex (\<lambda>ip. To4 ip \<noteq> None) ips"
  by (induction ips) auto

lemma firstIPv4_Some: "firstIPv4 To4 ips = Some a \<Longrightarrow> is_first_IPv4 To4 ips a"
proof (induction ips)
  case Nil
  then show ?case by simp
next
  case (Cons ip ips)
  show ?case
  proof (cases "To4 ip \<noteq> None")
    case True
    with Cons.prems have "a = ip" by simp
    with True have "ip # ips = [] @ a # ips \<and> To4 a \<noteq> None \<and> list_all (\<lambda>q. To4 q = None) []"
      by simp
    then show ?thesis unfolding is_first_IPv4_def by blast
  next
    case False
    with Cons.prems have "firstIPv4 To4 ips = Some a" by simp
    then obtain pre post where
      "ips = pre @ a # post" "To4 a \<noteq> None" "list_all (\<lambda>q. To4 q = None) pre"
      using Cons.IH unfolding is_first_IPv4_def by blast
    with False have
      "ip # ips = (ip # pre) @ a # post \<and> To4 a \<noteq> None \<and> list_all (\<lambda>q. To4 q = None) (ip # pre)"
      by simp
    then show ?thesis unfolding is_first_IPv4_def by blast
  qed
qed

lemma ResolveHosts_loop_ok:
  "list_all (resolvable LookupIP To4) hosts \<Longrightarrow>
   \<exists>rs. ResolveHosts_loop LookupIP To4 hosts acc = (acc @ rs, None) \<and>
        list_all2 (\<lambda>h r. Hostname r = h \<and>
                     (\<exists>ips. LookupIP h = Inr ips \<and> is_first_IPv4 To4 ips (IPAddr r))) hosts rs"
proof (induction hosts arbitrary: acc)
  case Nil
  then show ?case by simp
next
  case (Cons host hosts)
  from Cons.prems have r: "resolvable LookupIP To4 host"
    and rest: "list_all (resolvable LookupIP To4) hosts" by simp_all
  from r obtain ips where ips: "LookupIP host = Inr ips" "list_ex (\<lambda>ip. To4 ip \<noteq> None) ips"
    unfolding resolvable_def by (auto split: sum.splits)
  from ips(2) obtain a where a: "firstIPv4 To4 ips = Some a"
    using firstIPv4_None [of To4 ips] by (cases "firstIPv4 To4 ips") auto
  from a have first: "is_first_IPv4 To4 ips a" by (rule firstIPv4_Some)
  let ?rec = "\<lparr>Hostname = host, IPAddr = a\<rparr>"
  from Cons.IH [OF rest, of "acc @ [?rec]"] obtain rs where
    rs: "ResolveHosts_loop LookupIP To4 hosts (acc @ [?rec]) = ((acc @ [?rec]) @ rs, None)"
    and all: "list_all2 (\<lambda>h r. Hostname r = h \<and>
                     (\<exists>ips. LookupIP h = Inr ips \<and> is_first_IPv4 To4 ips (IPAddr r))) hosts rs"
    by blast
  have "ResolveHosts_loop LookupIP To4 (host # hosts) acc = (acc @ (?rec # rs), None)"
    using ips(1) a rs by simp
  moreover have "list_all2 (\<lambda>h r. Hostname r = h \<and>
                     (\<exists>ips. LookupIP h = Inr ips \<and> is_first_IPv4 To4 ips (IPAddr r)))
                   (host # hosts) (?rec # rs)"
    using all ips(1) first by simp
  ultimately show ?case by blast
qed

lemma ResolveHosts_loop_fail:
  "\<not> list_all (resolvable LookupIP To4) hosts \<Longrightarrow>
   \<exists>e. ResolveHosts_loop LookupIP To4 hosts acc = ([], Some e)"
proof (induction hosts arbitrary: acc)
  case Nil
  then show ?case by simp
next
  case (Cons host hosts)
  show ?case
  proof (cases "LookupIP host")
    case (Inl err)
    then show ?thesis by simp
  next
    case (Inr ips)
    show ?thesis
    proof (cases "firstIPv4 To4 ips")
      case None
      with Inr show ?thesis by simp
    next
      case (Some a)
      then have "list_ex (\<lambda>ip. To4 ip \<noteq> None) ips"
        using firstIPv4_None [of To4 ips] by auto
      with Inr have "resolvable LookupIP To4 host" by (simp add: resolvable_def)
      with Cons.prems have "\<not> list_all (resolvable LookupIP To4) hosts" by simp
      from Cons.IH [OF this] Inr Some show ?thesis by simp
    qed
  qed
qed

text \<open>
  C4. When every name of the list resolves to at least one IPv4 address,
  \<open>ResolveHosts\<close> returns no error and one record per name, in the order of the
  names, the record of a name carrying that name and the first IPv4 address of its
  answer. When some name does not resolve, or has no IPv4 address, it returns an
  error together with the nil slice: no record of the names resolved before.
\<close>

theorem ResolveHosts_all_or_nothing:
  "(list_all (resolvable LookupIP To4) hosts \<longrightarrow>
      (\<exists>rs. ResolveHosts LookupIP To4 hosts = (rs, None) \<and>
            length rs = length hosts \<and>
            list_all2 (\<lambda>h r. Hostname r = h \<and>
                     (\<exists>ips. LookupIP h = Inr ips \<and> is_first_IPv4 To4 ips (IPAddr r))) hosts rs)) \<and>
   (\<not> list_all (resolvable LookupIP To4) hosts \<longrightarrow>
      (\<exists>e. ResolveHosts LookupIP To4 hosts = ([], Some e)))"
proof (intro conjI impI)
  assume "list_all (resolvable LookupIP To4) hosts"
  from ResolveHosts_loop_ok [OF this, of "[]"] obtain rs where
    rs: "ResolveHosts_loop LookupIP To4 hosts [] = (rs, None)"
    and all: "list_all2 (\<lambda>h r. Hostname r = h \<and>
                     (\<exists>ips. LookupIP h = Inr ips \<and> is_first_IPv4 To4 ips (IPAddr r))) hosts rs"
    by auto
  from all have "length rs = length hosts" by (simp add: list_all2_lengthD)
  with rs all show "\<exists>rs. ResolveHosts LookupIP To4 hosts = (rs, None) \<and>
            length rs = length hosts \<and>
            list_all2 (\<lambda>h r. Hostname r = h \<and>
                     (\<exists>ips. LookupIP h = Inr ips \<and> is_first_IPv4 To4 ips (IPAddr r))) hosts rs"
    unfolding ResolveHosts_def by blast
next
  assume "\<not> list_all (resolvable LookupIP To4) hosts"
  from ResolveHosts_loop_fail [OF this, of "[]"]
  show "\<exists>e. ResolveHosts LookupIP To4 hosts = ([], Some e)"
    unfolding ResolveHosts_def .
qed

theorem ResolveHosts_all_or_nothing_witness:
  "list_all (resolvable example_dns net_To4) [''localhost'', ''router''] \<and>
   ResolveHosts example_dns net_To4 [''localhost'', ''router''] =
     ([\<lparr>Hostname = ''localhost'', IPAddr = [127, 0, 0, 1]\<rparr>,
       \<lparr>Hostname = ''router'', IPAddr = [192, 168, 0, 1]\<rparr>], None) \<and>
   \<not> list_all (resolvable example_dns net_To4) [''router'', ''v6only''] \<and>
   ResolveHosts example_dns net_To4 [''router'', ''v6only''] =
     ([], Some (NoIPv4AddressFound ''v6only''))"
  using ResolveHosts_all_or_nothing [of example_dns net_To4 "[''localhost'', ''router'']"]
    ResolveHosts_all_or_nothing [of example_dns net_To4 "[''router'', ''v6only'']"]
  by (simp add: resolvable_def example_dns_def loopback6_def net_To4_def ResolveHosts_def)

section \<open>Properties of the round scheduler\<close>

subsection \<open>The probes of a round\<close>

lemma ping_hosts_Inr:
  "ping_hosts rt pinger timeout hosts parts st = Inr (parts', st') \<Longrightarrow>
   rounds st' = rounds st \<and> count st' = count st \<and>
   (\<exists>cs. calls st' = calls st @ cs \<and> (\<forall>c \<in> set cs. \<exists>ip. c = CallPing ip timeout))"
proof (induction hosts arbitrary: parts st)
  case Nil
  then show ?case by simp
next
  case (Cons host hosts)
  from Cons.prems obtain res w where
    p: "Ping rt pinger (IPAddr host) timeout (world st) = Some (res, w)"
    by (cases "Ping rt pinger (IPAddr host) timeout (world st)") auto
  let ?st1 = "st\<lparr>world := w, calls := calls st @ [CallPing (IPAddr host) timeout]\<rparr>"
  from Cons.prems p obtain ps where
    "ping_hosts rt pinger timeout hosts ps ?st1 = Inr (parts', st')"
    by (cases res) auto
  from Cons.IH [OF this] obtain cs where
    keep: "rounds st' = rounds st" "count st' = count st"
    and cs: "calls st' = calls ?st1 @ cs" "\<forall>c \<in> set cs. \<exists>ip. c = CallPing ip timeout"
    by auto
  from cs have "calls st' = calls st @ (CallPing (IPAddr host) timeout # cs) \<and>
      (\<forall>c \<in> set (CallPing (IPAddr host) timeout # cs). \<exists>ip. c = CallPing ip timeout)"
    by simp
  with keep show ?case by blast
qed

lemma ping_hosts_Inl:
  "ping_hosts rt pinger timeout hosts parts st = Inl st' \<Longrightarrow>
   rounds st' = rounds st \<and> count st' = count st \<and>
   (\<exists>cs. calls st' = calls st @ cs \<and> (\<forall>c \<in> set cs. \<exists>ip. c = CallPing ip timeout))"
proof (induction hosts arbitrary: parts st)
  case Nil
  then show ?case by simp
next
  case (Cons host hosts)
  show ?case
  proof (cases "Ping rt pinger (IPAddr host) timeout (world st)")
    case None
    with Cons.prems have "st' = st\<lparr>calls := calls st @ [CallPing (IPAddr host) timeout]\<rparr>"
      by simp
    then have "rounds st' = rounds st \<and> count st' = count st \<and>
      calls st' = calls st @ [CallPing (IPAddr host) timeout] \<and>
      (\<forall>c \<in> set [CallPing (IPAddr host) timeout]. \<exists>ip. c = CallPing ip timeout)"
      by simp
    then show ?thesis by blast
  next
    case (Some a)
    then obtain res w where
      p: "Ping rt pinger (IPAddr host) timeout (world st) = Some (res, w)"
      by (cases a) auto
    let ?st1 = "st\<lparr>world := w, calls := calls st @ [CallPing (IPAddr host) timeout]\<rparr>"
    from Cons.prems p obtain ps where
      "ping_hosts rt pinger timeout hosts ps ?st1 = Inl st'"
      by (cases res) auto
    from Cons.IH [OF this] obtain cs where
      keep: "rounds st' = rounds st" "count st' = count st"
      and cs: "calls st' = calls ?st1 @ cs" "\<forall>c \<in> set cs. \<exists>ip. c = CallPing ip timeout"
      by auto
    from cs have "calls st' = calls st @ (CallPing (IPAddr host) timeout # cs) \<and>
        (\<forall>c \<in> set (CallPing (IPAddr host) timeout # cs). \<exists>ip. c = CallPing ip timeout)"
      by simp
    with keep show ?thesis by blast
  qed
qed

lemma uninterrupted_Ping:
  assumes "uninterrupted rt"
  shows "\<exists>res w'. Ping rt p ip d w = Some (res, w')"
proof -
  from assms have "Ping rt p ip d w \<noteq> None" unfolding uninterrupted_def by blast
  then show ?thesis by (cases "Ping rt p ip d w") auto
qed

lemma uninterrupted_Sleep:
  assumes "uninterrupted rt"
  shows "\<exists>w'. time_Sleep rt d w = Some w'"
proof -
  from assms have "time_Sleep rt d w \<noteq> None" unfolding uninterrupted_def by blast
  then show ?thesis by (cases "time_Sleep rt d w") auto
qed

lemma ping_hosts_uninterrupted:
  "uninterrupted rt \<Longrightarrow> \<exists>parts' st'. ping_hosts rt pinger timeout hosts parts st = Inr (parts', st')"
proof (induction hosts arbitrary: parts st)
  case Nil
  then show ?case by simp
next
  case (Cons host hosts)
  from uninterrupted_Ping [OF Cons.prems] obtain res w where
    p: "Ping rt pinger (IPAddr host) timeout (world st) = Some (res, w)"
    by blast
  show ?case
  proof (cases res)
    case (Inl err)
    with p Cons.IH [OF Cons.prems] show ?thesis by simp
  next
    case (Inr rtt)
    with p Cons.IH [OF Cons.prems] show ?thesis by simp
  qed
qed

subsection \<open>The wait and the body of a round\<close>

lemma wait_for_round_Inr:
  "wait_for_round rt start timeout st = Inr st1 \<Longrightarrow>
   rounds st1 = rounds st \<and> count st1 = count st \<and>
   (\<exists>cs. calls st1 = calls st @ cs \<and> (\<forall>c \<in> set cs. \<exists>d. c = CallSleep d))"
  by (auto simp: wait_for_round_def Let_def split: if_splits option.splits)

lemma wait_for_round_Inl:
  "wait_for_round rt start timeout st = Inl st1 \<Longrightarrow>
   rounds st1 = rounds st \<and> count st1 = count st \<and>
   (\<exists>cs. calls st1 = calls st @ cs \<and> (\<forall>c \<in> set cs. \<exists>d. c = CallSleep d))"
  by (auto simp: wait_for_round_def Let_def split: if_splits option.splits)

lemma sleep_contract_Some:
  assumes "sleep_contract rt" and "time_Sleep rt d w = Some w'"
  shows "time_Now rt w + d \<le> time_Now rt w'"
proof -
  from assms(1) have "case time_Sleep rt d w of
               None \<Rightarrow> True
             | Some w' \<Rightarrow> time_Now rt w + d \<le> time_Now rt w'"
    unfolding sleep_contract_def by blast
  with assms(2) show ?thesis by simp
qed

lemma wait_for_round_on_time:
  assumes "sleep_contract rt" and "wait_for_round rt start timeout st = Inr st1"
  shows "start + count st * timeout \<le> time_Now rt (world st1)"
proof (cases "start + count st * timeout - time_Now rt (world st) > 0")
  case True
  with assms(2) obtain w' where
    s: "time_Sleep rt (start + count st * timeout - time_Now rt (world st)) (world st) = Some w'"
    and w: "world st1 = w'"
    by (auto simp: wait_for_round_def Let_def split: option.splits)
  from sleep_contract_Some [OF assms(1) s] w show ?thesis by simp
next
  case False
  with assms(2) show ?thesis by (auto simp: wait_for_round_def Let_def)
qed

lemma wait_for_round_uninterrupted:
  "uninterrupted rt \<Longrightarrow> \<exists>st1. wait_for_round rt start timeout st = Inr st1"
  using uninterrupted_Sleep [of rt "start + count st * timeout - time_Now rt (world st)" "world st"]
  unfolding wait_for_round_def Let_def by auto

lemma round_body_Inr:
  assumes "round_body rt pinger timeout plainFlag resolvedHosts start st = Inr st'"
  shows "count st' = count st + 1 \<and>
         (\<exists>r. rounds st' = rounds st @ [r] \<and> index r = count st \<and>
              target r = start + count st * timeout \<and>
              (sleep_contract rt \<longrightarrow> target r \<le> started r)) \<and>
         (\<exists>cs. calls st' = calls st @ cs \<and> list_all (ping_or_sleep timeout) cs)"
proof -
  from assms obtain st1 where w: "wait_for_round rt start timeout st = Inr st1"
    unfolding round_body_def by (cases "wait_for_round rt start timeout st") auto
  let ?parts = "if \<not> plainFlag then [Timestamp (time_Now rt (world st1))] else []"
  from assms w obtain parts' st2 where
    p: "ping_hosts rt pinger timeout resolvedHosts ?parts st1 = Inr (parts', st2)"
    unfolding round_body_def Let_def
    by (cases "ping_hosts rt pinger timeout resolvedHosts ?parts st1") auto
  let ?r = "\<lparr>index = count st, target = start + count st * timeout,
             started = time_Now rt (world st1), line = parts'\<rparr>"
  from assms w p have st': "st' = st2\<lparr>rounds := rounds st2 @ [?r], count := count st2 + 1\<rparr>"
    unfolding round_body_def Let_def by simp
  from wait_for_round_Inr [OF w] obtain cs1 where
    k1: "rounds st1 = rounds st" "count st1 = count st"
    and c1: "calls st1 = calls st @ cs1" "\<forall>c \<in> set cs1. \<exists>d. c = CallSleep d"
    by auto
  from ping_hosts_Inr [OF p] obtain cs2 where
    k2: "rounds st2 = rounds st1" "count st2 = count st1"
    and c2: "calls st2 = calls st1 @ cs2" "\<forall>c \<in> set cs2. \<exists>ip. c = CallPing ip timeout"
    by auto
  have "count st' = count st + 1" using st' k1 k2 by simp
  moreover have "rounds st' = rounds st @ [?r] \<and> index ?r = count st \<and>
      target ?r = start + count st * timeout \<and> (sleep_contract rt \<longrightarrow> target ?r \<le> started ?r)"
    using st' k1 k2 wait_for_round_on_time [OF _ w] by simp
  moreover have "calls st' = calls st @ (cs1 @ cs2) \<and> list_all (ping_or_sleep timeout) (cs1 @ cs2)"
    using st' c1 c2 by (auto simp: list_all_iff ping_or_sleep_def)
  ultimately show ?thesis by blast
qed

lemma round_body_Inl:
  assumes "round_body rt pinger timeout plainFlag resolvedHosts start st = Inl st'"
  shows "count st' = count st \<and> rounds st' = rounds st \<and>
         (\<exists>cs. calls st' = calls st @ cs \<and> list_all (ping_or_sleep timeout) cs)"
proof (cases "wait_for_round rt start timeout st")
  case (Inl dead)
  with assms have "st' = dead" unfolding round_body_def by simp
  with wait_for_round_Inl [OF Inl] show ?thesis
    by (auto simp: list_all_iff ping_or_sleep_def)
next
  case (Inr st1)
  let ?parts = "if \<not> plainFlag then [Timestamp (time_Now rt (world st1))] else []"
  from assms Inr have p: "ping_hosts rt pinger timeout resolvedHosts ?parts st1 = Inl st'"
    unfolding round_body_def Let_def
    by (cases "ping_hosts rt pinger timeout resolvedHosts ?parts st1") auto
  from wait_for_round_Inr [OF Inr] obtain cs1 where
    k1: "rounds st1 = rounds st" "count st1 = count st"
    and c1: "calls st1 = calls st @ cs1" "\<forall>c \<in> set cs1. \<exists>d. c = CallSleep d"
    by auto
  from ping_hosts_Inl [OF p] obtain cs2 where
    k2: "rounds st' = rounds st1" "count st' = count st1"
    and c2: "calls st' = calls st1 @ cs2" "\<forall>c \<in> set cs2. \<exists>ip. c = CallPing ip timeout"
    by auto
  have "calls st' = calls st @ (cs1 @ cs2) \<and> list_all (ping_or_sleep timeout) (cs1 @ cs2)"
    using c1 c2 by (auto simp: list_all_iff ping_or_sleep_def)
  with k1 k2 show ?thesis by (metis (no_types))
qed

lemma round_body_uninterrupted:
  assumes "uninterrupted rt"
  shows "\<exists>st'. round_body rt pinger timeout plainFlag resolvedHosts start st = Inr st'"
proof -
  from wait_for_round_uninterrupted [OF assms] obtain st1 where
    w: "wait_for_round rt start timeout st = Inr st1" by blast
  let ?parts = "if \<not> plainFlag then [Timestamp (time_Now rt (world st1))] else []"
  from ping_hosts_uninterrupted [OF assms] obtain parts' st2 where
    "ping_hosts rt pinger timeout resolvedHosts ?parts st1 = Inr (parts', st2)" by blast
  with w show ?thesis unfolding round_body_def Let_def by simp
qed

subsection \<open>The loop\<close>

lemma round_body_paced:
  assumes "paced rt start timeout st"
    and "round_body rt pinger timeout plainFlag resolvedHosts start st = Inr st'"
  shows "paced rt start timeout st'"
proof -
  from round_body_Inr [OF assms(2)] obtain r where
    c: "count st' = count st + 1"
    and r: "rounds st' = rounds st @ [r]" "index r = count st"
      "target r = start + count st * timeout" "sleep_contract rt \<longrightarrow> target r \<le> started r"
    by blast
  from assms(1) have c0: "count st = int (length (rounds st))"
    and i0: "map index (rounds st) = map int [0..<length (rounds st)]"
    and t0: "\<forall>r \<in> set (rounds st). target r = start + index r * timeout \<and>
                              (sleep_contract rt \<longrightarrow> target r \<le> started r)"
    unfolding paced_def by blast+
  have "count st' = int (length (rounds st'))" using c c0 r(1) by simp
  moreover have "map index (rounds st') = map int [0..<length (rounds st')]"
    using i0 r(1,2) c0 by simp
  moreover have "\<forall>x \<in> set (rounds st'). target x = start + index x * timeout \<and>
                              (sleep_contract rt \<longrightarrow> target x \<le> started x)"
    using t0 r by auto
  ultimately show ?thesis unfolding paced_def by blast
qed

lemma round_body_dead_paced:
  assumes "paced rt start timeout st"
    and "round_body rt pinger timeout plainFlag resolvedHosts start st = Inl st'"
  shows "paced rt start timeout st'"
  using assms(1) round_body_Inl [OF assms(2)] unfolding paced_def by auto

lemma monitor_loop_paced:
  "paced rt start timeout st \<Longrightarrow>
   paced rt start timeout
     (exit_state (monitor_loop fuel rt pinger countFlag timeout plainFlag resolvedHosts start st))"
proof (induction fuel arbitrary: st)
  case 0
  then show ?case by simp
next
  case (Suc fuel)
  show ?case
  proof (cases "round_body rt pinger timeout plainFlag resolvedHosts start st")
    case (Inl dead)
    with round_body_dead_paced [OF Suc.prems Inl] show ?thesis by simp
  next
    case (Inr st')
    from round_body_paced [OF Suc.prems Inr] have p: "paced rt start timeout st'" .
    show ?thesis
    proof (cases "countFlag > 0 \<and> count st' \<ge> countFlag")
      case True
      with Inr p show ?thesis by simp
    next
      case False
      with Inr Suc.IH [OF p] show ?thesis by auto
    qed
  qed
qed

lemma monitor_loop_calls:
  "\<exists>cs. calls (exit_state (monitor_loop fuel rt pinger countFlag timeout plainFlag
                              resolvedHosts start st)) = calls st @ cs \<and>
        list_all (ping_or_sleep timeout) cs"
proof (induction fuel arbitrary: st)
  case 0
  then show ?case by simp
next
  case (Suc fuel)
  show ?case
  proof (cases "round_body rt pinger timeout plainFlag resolvedHosts start st")
    case (Inl dead)
    with round_body_Inl [OF Inl] show ?thesis by simp
  next
    case (Inr st')
    from round_body_Inr [OF Inr] obtain cs1 where
      c1: "calls st' = calls st @ cs1" "list_all (ping_or_sleep timeout) cs1" by blast
    show ?thesis
    proof (cases "countFlag > 0 \<and> count st' \<ge> countFlag")
      case True
      with Inr c1 show ?thesis by simp
    next
      case False
      from Suc.IH [of st'] obtain cs2 where
        c2: "calls (exit_state (monitor_loop fuel rt pinger countFlag timeout plainFlag
                              resolvedHosts start st')) = calls st' @ cs2"
          "list_all (ping_or_sleep timeout) cs2" by blast
      have "calls (exit_state (monitor_loop (Suc fuel) rt pinger countFlag timeout plainFlag
                              resolvedHosts start st)) = calls st @ (cs1 @ cs2) \<and>
            list_all (ping_or_sleep timeout) (cs1 @ cs2)"
        using Inr False c1 c2 by auto
      then show ?thesis by blast
    qed
  qed
qed

lemma monitor_loop_breaks:
  "uninterrupted rt \<Longrightarrow> 0 < countFlag \<Longrightarrow> count st < countFlag \<Longrightarrow>
   nat (countFlag - count st) \<le> fuel \<Longrightarrow>
   \<exists>st'. monitor_loop fuel rt pinger countFlag timeout plainFlag resolvedHosts start st = Broke st' \<and>
         count st' = countFlag"
proof (induction fuel arbitrary: st)
  case 0
  then show ?case by simp
next
  case (Suc fuel)
  from round_body_uninterrupted [OF Suc.prems(1)] obtain st1 where
    b: "round_body rt pinger timeout plainFlag resolvedHosts start st = Inr st1" by blast
  from round_body_Inr [OF b] have c: "count st1 = count st + 1" by blast
  show ?case
  proof (cases "countFlag > 0 \<and> count st1 \<ge> countFlag")
    case True
    with c Suc.prems(3) have "count st1 = countFlag" by simp
    with b True show ?thesis by simp
  next
    case False
    with Suc.prems(2) have lt: "count st1 < countFlag" by linarith
    have "nat (countFlag - count st1) \<le> fuel" using c Suc.prems(4) by linarith
    from Suc.IH [OF Suc.prems(1,2) lt this] b False show ?thesis by auto
  qed
qed

lemma monitor_loop_unbounded:
  "countFlag < 0 \<Longrightarrow>
   monitor_loop fuel rt pinger countFlag timeout plainFlag resolvedHosts start st \<noteq> Broke st'"
proof (induction fuel arbitrary: st)
  case 0
  then show ?case by simp
next
  case (Suc fuel)
  show ?case
  proof (cases "round_body rt pinger timeout plainFlag resolvedHosts start st")
    case (Inl dead)
    then show ?thesis by simp
  next
    case (Inr st1)
    with Suc.prems Suc.IH [OF Suc.prems, of st1] show ?thesis by simp
  qed
qed

lemma monitor_loop_unbounded_going:
  "uninterrupted rt \<Longrightarrow> countFlag < 0 \<Longrightarrow>
   \<exists>st'. monitor_loop fuel rt pinger countFlag timeout plainFlag resolvedHosts start st = Going st' \<and>
         length (rounds st') = length (rounds st) + fuel"
proof (induction fuel arbitrary: st)
  case 0
  then show ?case by simp
next
  case (Suc fuel)
  from round_body_uninterrupted [OF Suc.prems(1)] obtain st1 where
    b: "round_body rt pinger timeout plainFlag resolvedHosts start st = Inr st1" by blast
  from round_body_Inr [OF b] obtain r where "rounds st1 = rounds st @ [r]" by blast
  then have l: "length (rounds st1) = Suc (length (rounds st))" by simp
  from Suc.IH [OF Suc.prems, of st1] obtain st' where
    "monitor_loop fuel rt pinger countFlag timeout plainFlag resolvedHosts start st1 = Going st'"
    "length (rounds st') = length (rounds st1) + fuel" by blast
  with b l Suc.prems(2) show ?case by simp
qed

lemma paced_initial:
  "paced rt start timeout \<lparr>world = w1, count = 0, rounds = [], calls = cs\<rparr>"
  by (simp add: paced_def)

subsection \<open>What a whole run leaves behind\<close>


lemma monitorHosts_Killed_no_Close:
  assumes "monitorHosts fuel rt countFlag timeout plainFlag resolvedHosts w = Killed st"
  shows "CallClose \<notin> set (calls st)"
proof -
  from assms have nz: "countFlag \<noteq> 0" by (auto simp: monitorHosts_def)
  obtain res w1 where n: "ping_New rt w = (res, w1)" by (cases "ping_New rt w") auto
  from assms nz n obtain pinger where p: "res = Inr pinger"
    by (cases res) (auto simp: monitorHosts_def)
  let ?ex = "monitor_loop fuel rt pinger countFlag timeout plainFlag resolvedHosts
                  (time_Now rt w1) \<lparr>world = w1, count = 0, rounds = [], calls = [CallNew]\<rparr>"
  from assms nz n p have ex: "?ex = Dead st"
    by (cases ?ex) (auto simp: monitorHosts_def)
  from monitor_loop_calls [of fuel rt pinger countFlag timeout plainFlag resolvedHosts
      "time_Now rt w1" "\<lparr>world = w1, count = 0, rounds = [], calls = [CallNew]\<rparr>"] ex
  obtain cs where "calls st = [CallNew] @ cs" "list_all (ping_or_sleep timeout) cs" by auto
  then show ?thesis by (auto simp: list_all_iff ping_or_sleep_def)
qed

text \<open>
  C3. With \<^verbatim>\<open>countFlag = 0\<close> the scheduler returns at once: no round, no call on the
  runtime (not even \<^verbatim>\<open>ping.New\<close>), the world untouched. With \<^verbatim>\<open>countFlag = N > 0\<close>,
  a pinger that could be created and no interrupt, following the loop for at least
  \<open>N\<close> rounds finds that it has returned, with exactly \<open>N\<close> rounds of indices
  \<open>0, ..., N - 1\<close>. With a negative \<^verbatim>\<open>countFlag\<close> the function never returns, however
  long the loop is followed; when nothing interrupts it, it is still running after
  any number of rounds and has emitted that many.
\<close>

theorem monitorHosts_count:
  "(countFlag = 0 \<longrightarrow>
      monitorHosts fuel rt countFlag timeout plainFlag resolvedHosts w =
        Returned \<lparr>world = w, count = 0, rounds = [], calls = []\<rparr>) \<and>
   (0 < countFlag \<and> uninterrupted rt \<and> (\<exists>pinger. fst (ping_New rt w) = Inr pinger) \<and>
    nat countFlag \<le> fuel \<longrightarrow>
      (\<exists>st. monitorHosts fuel rt countFlag timeout plainFlag resolvedHosts w = Returned st \<and>
            length (rounds st) = nat countFlag \<and>
            map index (rounds st) = map int [0..<nat countFlag])) \<and>
   (countFlag < 0 \<longrightarrow>
      (\<forall>st. monitorHosts fuel rt countFlag timeout plainFlag resolvedHosts w \<noteq> Returned st) \<and>
      (uninterrupted rt \<and> (\<exists>pinger. fst (ping_New rt w) = Inr pinger) \<longrightarrow>
         (\<exists>st. monitorHosts fuel rt countFlag timeout plainFlag resolvedHosts w = Running st \<and>
               length (rounds st) = fuel)))"
proof (intro conjI impI allI)
  assume "countFlag = 0"
  then show "monitorHosts fuel rt countFlag timeout plainFlag resolvedHosts w =
        Returned \<lparr>world = w, count = 0, rounds = [], calls = []\<rparr>"
    by (simp add: monitorHosts_def)
next
  assume a: "0 < countFlag \<and> uninterrupted rt \<and> (\<exists>pinger. fst (ping_New rt w) = Inr pinger) \<and>
    nat countFlag \<le> fuel"
  then obtain pinger w1 where n: "ping_New rt w = (Inr pinger, w1)"
    by (cases "ping_New rt w") auto
  let ?st0 = "\<lparr>world = w1, count = 0, rounds = [], calls = [CallNew]\<rparr>"
  from a have "count ?st0 < countFlag" "nat (countFlag - count ?st0) \<le> fuel" by simp_all
  from monitor_loop_breaks [OF _ _ this, of rt pinger timeout plainFlag resolvedHosts "time_Now rt w1"] a
  obtain st' where
    b: "monitor_loop fuel rt pinger countFlag timeout plainFlag resolvedHosts (time_Now rt w1) ?st0
          = Broke st'"
    and c: "count st' = countFlag" by blast
  have "paced rt (time_Now rt w1) timeout
          (exit_state (monitor_loop fuel rt pinger countFlag timeout plainFlag resolvedHosts
             (time_Now rt w1) ?st0))"
    by (rule monitor_loop_paced [OF paced_initial])
  with b have p: "paced rt (time_Now rt w1) timeout st'" by simp
  from p c have len: "length (rounds st') = nat countFlag" unfolding paced_def by simp
  from p len have idx: "map index (rounds st') = map int [0..<nat countFlag]"
    unfolding paced_def by simp
  let ?st = "st'\<lparr>world := snd (Close rt pinger (world st')), calls := calls st' @ [CallClose]\<rparr>"
  from a n b have "monitorHosts fuel rt countFlag timeout plainFlag resolvedHosts w = Returned ?st"
    by (simp add: monitorHosts_def)
  moreover from len idx have "length (rounds ?st) = nat countFlag \<and>
      map index (rounds ?st) = map int [0..<nat countFlag]" by simp
  ultimately show "\<exists>st. monitorHosts fuel rt countFlag timeout plainFlag resolvedHosts w = Returned st \<and>
            length (rounds st) = nat countFlag \<and>
            map index (rounds st) = map int [0..<nat countFlag]" by blast
next
  fix st
  assume neg: "countFlag < 0"
  show "monitorHosts fuel rt countFlag timeout plainFlag resolvedHosts w \<noteq> Returned st"
  proof
    assume r: "monitorHosts fuel rt countFlag timeout plainFlag resolvedHosts w = Returned st"
    obtain res w1 where n: "ping_New rt w = (res, w1)" by (cases "ping_New rt w") auto
    from r neg n obtain pinger where p: "res = Inr pinger"
      by (cases res) (auto simp: monitorHosts_def)
    let ?ex = "monitor_loop fuel rt pinger countFlag timeout plainFlag resolvedHosts
                  (time_Now rt w1) \<lparr>world = w1, count = 0, rounds = [], calls = [CallNew]\<rparr>"
    from r neg n p obtain st' where "?ex = Broke st'"
      by (cases ?ex) (auto simp: monitorHosts_def)
    then show False by (simp add: monitor_loop_unbounded [OF neg])
  qed
next
  assume neg: "countFlag < 0"
    and a: "uninterrupted rt \<and> (\<exists>pinger. fst (ping_New rt w) = Inr pinger)"
  then obtain pinger w1 where n: "ping_New rt w = (Inr pinger, w1)"
    by (cases "ping_New rt w") auto
  let ?st0 = "\<lparr>world = w1, count = 0, rounds = [], calls = [CallNew]\<rparr>"
  from monitor_loop_unbounded_going [of rt countFlag fuel pinger timeout plainFlag resolvedHosts
      "time_Now rt w1" ?st0] a neg
  obtain st' where
    "monitor_loop fuel rt pinger countFlag timeout plainFlag resolvedHosts (time_Now rt w1) ?st0
       = Going st'" "length (rounds st') = fuel" by auto
  with neg n show "\<exists>st. monitorHosts fuel rt countFlag timeout plainFlag resolvedHosts w = Running st \<and>
               length (rounds st) = fuel"
    by (simp add: monitorHosts_def)
qed

theorem monitorHosts_count_witness:
  "monitorHosts 5 (sim_runtime None) 0 Second True sim_hosts sim_start =
     Returned \<lparr>world = sim_start, count = 0, rounds = [], calls = []\<rparr> \<and>
   uninterrupted (sim_runtime None) \<and>
   (\<exists>pinger. fst (ping_New (sim_runtime None) sim_start) = Inr pinger) \<and>
   (0::int) < 2 \<and> nat 2 \<le> (5::nat) \<and>
   (\<exists>st. monitorHosts 5 (sim_runtime None) 2 Second True sim_hosts sim_start = Returned st \<and>
         length (rounds st) = 2 \<and> map index (rounds st) = [0, 1]) \<and>
   (-1::int) < 0 \<and>
   (\<forall>st. monitorHosts 3 (sim_runtime None) (-1) Second True sim_hosts sim_start \<noteq> Returned st) \<and>
   (\<exists>st. monitorHosts 3 (sim_runtime None) (-1) Second True sim_hosts sim_start = Running st \<and>
         length (rounds st) = 3)"
proof -
  have u: "uninterrupted (sim_runtime None)"
    by (simp add: uninterrupted_def sim_runtime_def)
  have n: "\<exists>pinger. fst (ping_New (sim_runtime None) sim_start) = Inr pinger"
    by (simp add: sim_runtime_def)
  have l: "map int [0..<nat 2] = [0, 1]"
    by (simp add: upt_rec)
  from u n l
    monitorHosts_count [where countFlag = 0 and fuel = 5 and rt = "sim_runtime None"
      and timeout = Second and plainFlag = True and resolvedHosts = sim_hosts and w = sim_start]
    monitorHosts_count [where countFlag = 2 and fuel = 5 and rt = "sim_runtime None"
      and timeout = Second and plainFlag = True and resolvedHosts = sim_hosts and w = sim_start]
    monitorHosts_count [where countFlag = "-1" and fuel = 3 and rt = "sim_runtime None"
      and timeout = Second and plainFlag = True and resolvedHosts = sim_hosts and w = sim_start]
  show ?thesis by simp
qed




subsection \<open>The scheduler of the source against the scheduler of the specification\<close>

lemma ping_hosts_refines:
  "spec_probe_hosts rt pinger timeout hosts outs (world st) = Inr (outs', w') \<Longrightarrow>
   \<exists>st'. ping_hosts rt pinger timeout hosts (pre @ map colour outs) st
            = Inr (pre @ map colour outs', st') \<and> world st' = w'"
proof (induction hosts arbitrary: outs st)
  case Nil
  then show ?case by simp
next
  case (Cons h hs)
  from Cons.prems obtain res w1 where
    p: "Ping rt pinger (IPAddr h) timeout (world st) = Some (res, w1)"
    by (cases "Ping rt pinger (IPAddr h) timeout (world st)") auto
  let ?st1 = "st\<lparr>world := w1, calls := calls st @ [CallPing (IPAddr h) timeout]\<rparr>"
  show ?case
  proof (cases res)
    case (Inl e)
    let ?o = "\<lparr>po_host = h, po_success = False, po_rtt = 0, po_failureReason = Some e\<rparr>"
    from Cons.prems p Inl have
      "spec_probe_hosts rt pinger timeout hs (outs @ [?o]) (world ?st1) = Inr (outs', w')"
      by simp
    from Cons.IH [OF this] obtain st' where
      "ping_hosts rt pinger timeout hs (pre @ map colour (outs @ [?o])) ?st1
         = Inr (pre @ map colour outs', st')" "world st' = w'" by blast
    moreover have "colour ?o = Red (Hostname h)" by (simp add: colour_def)
    ultimately show ?thesis using p Inl by simp
  next
    case (Inr t)
    let ?o = "\<lparr>po_host = h, po_success = True, po_rtt = t, po_failureReason = None\<rparr>"
    from Cons.prems p Inr have
      "spec_probe_hosts rt pinger timeout hs (outs @ [?o]) (world ?st1) = Inr (outs', w')"
      by simp
    from Cons.IH [OF this] obtain st' where
      "ping_hosts rt pinger timeout hs (pre @ map colour (outs @ [?o])) ?st1
         = Inr (pre @ map colour outs', st')" "world st' = w'" by blast
    moreover have "colour ?o = Green (Hostname h)" by (simp add: colour_def)
    ultimately show ?thesis using p Inr by simp
  qed
qed

lemma ping_hosts_refines_dead:
  "spec_probe_hosts rt pinger timeout hosts outs (world st) = Inl w' \<Longrightarrow>
   \<exists>st'. ping_hosts rt pinger timeout hosts parts st = Inl st' \<and> world st' = w'"
proof (induction hosts arbitrary: outs st parts)
  case Nil
  then show ?case by simp
next
  case (Cons h hs)
  show ?case
  proof (cases "Ping rt pinger (IPAddr h) timeout (world st)")
    case None
    with Cons.prems show ?thesis by simp
  next
    case (Some a)
    then obtain res w1 where
      p: "Ping rt pinger (IPAddr h) timeout (world st) = Some (res, w1)"
      by (cases a) auto
    let ?st1 = "st\<lparr>world := w1, calls := calls st @ [CallPing (IPAddr h) timeout]\<rparr>"
    show ?thesis
    proof (cases res)
      case (Inl e)
      let ?o = "\<lparr>po_host = h, po_success = False, po_rtt = 0, po_failureReason = Some e\<rparr>"
      from Cons.prems p Inl have
        "spec_probe_hosts rt pinger timeout hs (outs @ [?o]) (world ?st1) = Inl w'"
        by simp
      from Cons.IH [OF this, of "parts @ [Red (Hostname h)]"] p Inl show ?thesis by simp
    next
      case (Inr t)
      let ?o = "\<lparr>po_host = h, po_success = True, po_rtt = t, po_failureReason = None\<rparr>"
      from Cons.prems p Inr have
        "spec_probe_hosts rt pinger timeout hs (outs @ [?o]) (world ?st1) = Inl w'"
        by simp
      from Cons.IH [OF this, of "parts @ [Green (Hostname h)]"] p Inr show ?thesis by simp
    qed
  qed
qed

lemma wait_for_round_refines:
  "(case (if time_Now rt (world st) < start + count st * timeout
          then time_Sleep rt (start + count st * timeout - time_Now rt (world st)) (world st)
          else Some (world st)) of
      None \<Rightarrow> \<exists>dead. wait_for_round rt start timeout st = Inl dead \<and> world dead = world st \<and>
                 rounds dead = rounds st
    | Some w1 \<Rightarrow> \<exists>st1. wait_for_round rt start timeout st = Inr st1 \<and> world st1 = w1 \<and>
                 rounds st1 = rounds st \<and> count st1 = count st)"
  by (simp add: wait_for_round_def Let_def split: option.splits)

lemma round_body_refines:
  fixes st :: "'w mstate"
  assumes slept_def: "slept = (if time_Now rt (world st) < start + count st * timeout
          then time_Sleep rt (start + count st * timeout - time_Now rt (world st)) (world st)
          else Some (world st))"
  shows "(slept = None \<longrightarrow>
            (\<exists>dead. round_body rt pinger timeout plainFlag hosts start st = Inl dead \<and>
                    world dead = world st \<and> rounds dead = rounds st)) \<and>
         (\<forall>w1 w2. slept = Some w1 \<and> spec_probe_hosts rt pinger timeout hosts [] w1 = Inl w2 \<longrightarrow>
            (\<exists>dead. round_body rt pinger timeout plainFlag hosts start st = Inl dead \<and>
                    world dead = w2 \<and> rounds dead = rounds st)) \<and>
         (\<forall>w1 w2 outs. slept = Some w1 \<and>
              spec_probe_hosts rt pinger timeout hosts [] w1 = Inr (outs, w2) \<longrightarrow>
            (\<exists>st'. round_body rt pinger timeout plainFlag hosts start st = Inr st' \<and>
                   world st' = w2 \<and> count st' = count st + 1 \<and>
                   map line (rounds st') = map line (rounds st) @
                     [render plainFlag \<lparr>r_index = count st, r_startTime = time_Now rt w1,
                                        r_outcomes = outs\<rparr>]))"
proof (intro conjI allI impI)
  assume "slept = None"
  with wait_for_round_refines [where rt = rt and st = st and start = start and timeout = timeout] obtain dead where
    "wait_for_round rt start timeout st = Inl dead" "world dead = world st"
    "rounds dead = rounds st"
    unfolding slept_def by auto
  then show "\<exists>dead. round_body rt pinger timeout plainFlag hosts start st = Inl dead \<and>
                    world dead = world st \<and> rounds dead = rounds st"
    by (simp add: round_body_def)
next
  fix w1 w2
  assume a: "slept = Some w1 \<and> spec_probe_hosts rt pinger timeout hosts [] w1 = Inl w2"
  with wait_for_round_refines [where rt = rt and st = st and start = start and timeout = timeout] obtain st1 where
    w: "wait_for_round rt start timeout st = Inr st1" "world st1 = w1" "rounds st1 = rounds st"
    unfolding slept_def by auto
  let ?parts = "if \<not> plainFlag then [Timestamp (time_Now rt (world st1))] else []"
  from a w(2) have "spec_probe_hosts rt pinger timeout hosts [] (world st1) = Inl w2" by simp
  from ping_hosts_refines_dead [OF this, of ?parts] obtain dead where
    d: "ping_hosts rt pinger timeout hosts ?parts st1 = Inl dead" "world dead = w2" by blast
  from ping_hosts_Inl [OF d(1)] w(3) have "rounds dead = rounds st" by simp
  with w(1) d show "\<exists>dead. round_body rt pinger timeout plainFlag hosts start st = Inl dead \<and>
                    world dead = w2 \<and> rounds dead = rounds st"
    by (simp add: round_body_def Let_def)
next
  fix w1 w2 outs
  assume a: "slept = Some w1 \<and> spec_probe_hosts rt pinger timeout hosts [] w1 = Inr (outs, w2)"
  with wait_for_round_refines [where rt = rt and st = st and start = start and timeout = timeout] obtain st1 where
    w: "wait_for_round rt start timeout st = Inr st1" "world st1 = w1" "rounds st1 = rounds st"
      "count st1 = count st"
    unfolding slept_def by auto
  let ?parts = "if \<not> plainFlag then [Timestamp (time_Now rt (world st1))] else []"
  from a w(2) have "spec_probe_hosts rt pinger timeout hosts [] (world st1) = Inr (outs, w2)"
    by simp
  from ping_hosts_refines [OF this, of ?parts] obtain st2 where
    p: "ping_hosts rt pinger timeout hosts ?parts st1 = Inr (?parts @ map colour outs, st2)"
      "world st2 = w2" by auto
  from ping_hosts_Inr [OF p(1)] w(3,4) have k: "rounds st2 = rounds st" "count st2 = count st"
    by simp_all
  let ?st' = "st2\<lparr>rounds := rounds st2 @
                              [\<lparr>index = count st, target = start + count st * timeout,
                                started = time_Now rt (world st1),
                                line = ?parts @ map colour outs\<rparr>],
                           count := count st2 + 1\<rparr>"
  from w(1) p(1) have "round_body rt pinger timeout plainFlag hosts start st = Inr ?st'"
    by (simp add: round_body_def Let_def)
  moreover from p(2) k w(2) have "world ?st' = w2 \<and> count ?st' = count st + 1 \<and>
      map line (rounds ?st') = map line (rounds st) @
        [render plainFlag \<lparr>r_index = count st, r_startTime = time_Now rt w1, r_outcomes = outs\<rparr>]"
    by (simp add: render_def)
  ultimately show "\<exists>st'. round_body rt pinger timeout plainFlag hosts start st = Inr st' \<and>
                   world st' = w2 \<and> count st' = count st + 1 \<and>
                   map line (rounds st') = map line (rounds st) @
                     [render plainFlag \<lparr>r_index = count st, r_startTime = time_Now rt w1,
                                        r_outcomes = outs\<rparr>]"
    by blast
qed

lemma monitor_loop_refines:
  "map line (rounds st) = map (render plainFlag) emitted \<Longrightarrow>
   observable_loop (monitor_loop fuel rt pinger cnt timeout plainFlag hosts start st) =
   rendered plainFlag
     (spec_rounds fuel rt pinger cnt timeout timeout hosts start (count st) emitted (world st))"
proof (induction fuel arbitrary: st emitted)
  case 0
  then show ?case by (simp add: rendered_def)
next
  case (Suc fuel)
  let ?slept = "(if time_Now rt (world st) < start + count st * timeout
          then time_Sleep rt (start + count st * timeout - time_Now rt (world st)) (world st)
          else Some (world st))"
  note rb = round_body_refines [OF refl, where rt = rt and st = st and start = start
      and timeout = timeout and pinger = pinger and plainFlag = plainFlag and hosts = hosts]
  show ?case
  proof (cases ?slept)
    case None
    with rb obtain dead where
      "round_body rt pinger timeout plainFlag hosts start st = Inl dead"
      "world dead = world st" "rounds dead = rounds st" by blast
    with None Suc.prems show ?thesis by (simp add: rendered_def)
  next
    case (Some w1)
    show ?thesis
    proof (cases "spec_probe_hosts rt pinger timeout hosts [] w1")
      case (Inl w2)
      with Some rb obtain dead where
        "round_body rt pinger timeout plainFlag hosts start st = Inl dead"
        "world dead = w2" "rounds dead = rounds st" by blast
      with Some Inl Suc.prems show ?thesis by (simp add: rendered_def)
    next
      case (Inr a)
      obtain outs w2 where a: "a = (outs, w2)" by (cases a)
      let ?r = "\<lparr>r_index = count st, r_startTime = time_Now rt w1, r_outcomes = outs\<rparr>"
      from Some Inr a rb obtain st' where
        b: "round_body rt pinger timeout plainFlag hosts start st = Inr st'"
        and k: "world st' = w2" "count st' = count st + 1"
          "map line (rounds st') = map line (rounds st) @ [render plainFlag ?r]" by blast
      from k(3) Suc.prems have l: "map line (rounds st') = map (render plainFlag) (emitted @ [?r])"
        by simp
      show ?thesis
      proof (cases "cnt > 0 \<and> count st + 1 \<ge> cnt")
        case True
        with Some Inr a b k l show ?thesis by (simp add: rendered_def)
      next
        case False
        from Suc.IH [OF l] k have
          "observable_loop (monitor_loop fuel rt pinger cnt timeout plainFlag hosts start st') =
           rendered plainFlag (spec_rounds fuel rt pinger cnt timeout timeout hosts start
              (count st + 1) (emitted @ [?r]) w2)" by simp
        with False Some Inr a b k show ?thesis by auto
      qed
    qed
  qed
qed

lemma sim_spec_run_timeout:
  "spec_RoundScheduler False 3 (sim_runtime None) 2 (200 * Millisecond) (200 * Millisecond)
     sim_hosts sim_start =
   (Completed, \<lparr>sim_clock = 402000000, sim_probes = 4, sim_closed = 1\<rparr>,
    [\<lparr>r_index = 0, r_startTime = 0, r_outcomes =
        [\<lparr>po_host = \<lparr>Hostname = ''localhost'', IPAddr = [127, 0, 0, 1]\<rparr>, po_success = True,
          po_rtt = 1000000, po_failureReason = None\<rparr>,
         \<lparr>po_host = \<lparr>Hostname = ''testnet'', IPAddr = [192, 0, 2, 1]\<rparr>, po_success = False,
          po_rtt = 0, po_failureReason = Some (LibError ''i/o timeout'')\<rparr>]\<rparr>,
     \<lparr>r_index = 1, r_startTime = 201000000, r_outcomes =
        [\<lparr>po_host = \<lparr>Hostname = ''localhost'', IPAddr = [127, 0, 0, 1]\<rparr>, po_success = True,
          po_rtt = 1000000, po_failureReason = None\<rparr>,
         \<lparr>po_host = \<lparr>Hostname = ''testnet'', IPAddr = [192, 0, 2, 1]\<rparr>, po_success = False,
          po_rtt = 0, po_failureReason = Some (LibError ''i/o timeout'')\<rparr>]\<rparr>])"
  by (simp add: spec_RoundScheduler_def eval_nat_numeral sim_runtime_def sim_start_def
        sim_hosts_def Millisecond_def)

lemma sim_spec_run_interval:
  "spec_RoundScheduler False 3 (sim_runtime None) 2 Second (200 * Millisecond)
     sim_hosts sim_start =
   (Completed, \<lparr>sim_clock = 1201000000, sim_probes = 4, sim_closed = 1\<rparr>,
    [\<lparr>r_index = 0, r_startTime = 0, r_outcomes =
        [\<lparr>po_host = \<lparr>Hostname = ''localhost'', IPAddr = [127, 0, 0, 1]\<rparr>, po_success = True,
          po_rtt = 1000000, po_failureReason = None\<rparr>,
         \<lparr>po_host = \<lparr>Hostname = ''testnet'', IPAddr = [192, 0, 2, 1]\<rparr>, po_success = False,
          po_rtt = 0, po_failureReason = Some (LibError ''i/o timeout'')\<rparr>]\<rparr>,
     \<lparr>r_index = 1, r_startTime = 1000000000, r_outcomes =
        [\<lparr>po_host = \<lparr>Hostname = ''localhost'', IPAddr = [127, 0, 0, 1]\<rparr>, po_success = True,
          po_rtt = 1000000, po_failureReason = None\<rparr>,
         \<lparr>po_host = \<lparr>Hostname = ''testnet'', IPAddr = [192, 0, 2, 1]\<rparr>, po_success = False,
          po_rtt = 0, po_failureReason = Some (LibError ''i/o timeout'')\<rparr>]\<rparr>])"
  by (simp add: spec_RoundScheduler_def eval_nat_numeral sim_runtime_def sim_start_def
        sim_hosts_def Millisecond_def Second_def)

text \<open>
  C8. Whatever the runtime does, a run of \<^verbatim>\<open>monitorHosts\<close> with the duration
  \<^verbatim>\<open>timeout\<close> ends as the scheduler of the specification ends when both its
  \<^verbatim>\<open>interval\<close> and its probe \<^verbatim>\<open>timeout\<close> are that one duration: in the same way,
  leaving the same world behind (so with the same sleeps and the same probes asked
  of the runtime, in the same order and with the same arguments) and with the same
  lines printed. The round of index \<open>i\<close> of the source is therefore aimed at
  \<open>start + i * timeout\<close> and each of its probes is given \<open>timeout\<close>; the source has
  no second duration.
\<close>

theorem monitorHosts_interval_is_timeout:
  "observable (monitorHosts fuel rt countFlag timeout plainFlag resolvedHosts w) =
   rendered plainFlag
     (spec_RoundScheduler False fuel rt countFlag timeout timeout resolvedHosts w)"
proof (cases "countFlag = 0")
  case True
  then show ?thesis by (simp add: monitorHosts_def spec_RoundScheduler_def rendered_def)
next
  case nz: False
  obtain res w1 where n: "ping_New rt w = (res, w1)" by (cases "ping_New rt w") auto
  show ?thesis
  proof (cases res)
    case (Inl e)
    with nz n show ?thesis by (simp add: monitorHosts_def spec_RoundScheduler_def rendered_def)
  next
    case (Inr pinger)
    let ?st0 = "\<lparr>world = w1, count = 0, rounds = [], calls = [CallNew]\<rparr>"
    let ?ex = "monitor_loop fuel rt pinger countFlag timeout plainFlag resolvedHosts
                 (time_Now rt w1) ?st0"
    let ?sp = "spec_rounds fuel rt pinger countFlag timeout timeout resolvedHosts
                 (time_Now rt w1) 0 [] w1"
    have "map line (rounds ?st0) = map (render plainFlag) []" by simp
    from monitor_loop_refines [OF this, of fuel rt pinger countFlag timeout resolvedHosts
        "time_Now rt w1"]
    have sim: "observable_loop ?ex = rendered plainFlag ?sp" by simp
    obtain ending w2 emitted where sp: "?sp = (ending, w2, emitted)" by (cases ?sp) auto
    show ?thesis
    proof (cases ?ex)
      case (Broke st)
      with sim sp have "ending = Completed" "world st = w2"
        "map line (rounds st) = map (render plainFlag) emitted"
        by (simp_all add: rendered_def)
      with nz n Inr Broke sp show ?thesis
        by (simp add: monitorHosts_def spec_RoundScheduler_def rendered_def)
    next
      case (Dead st)
      with sim sp have "ending = Interrupted" "world st = w2"
        "map line (rounds st) = map (render plainFlag) emitted"
        by (simp_all add: rendered_def)
      with nz n Inr Dead sp show ?thesis
        by (simp add: monitorHosts_def spec_RoundScheduler_def rendered_def)
    next
      case (Going st)
      with sim sp have "ending = StillRunning" "world st = w2"
        "map line (rounds st) = map (render plainFlag) emitted"
        by (simp_all add: rendered_def)
      with nz n Inr Going sp show ?thesis
        by (simp add: monitorHosts_def spec_RoundScheduler_def rendered_def)
    qed
  qed
qed

theorem monitorHosts_interval_is_timeout_witness:
  "observable (monitorHosts 3 (sim_runtime None) 2 (200 * Millisecond) True sim_hosts sim_start) =
     (Completed, \<lparr>sim_clock = 402000000, sim_probes = 4, sim_closed = 1\<rparr>,
      [Green ''localhost'', Red ''testnet''] # [Green ''localhost'', Red ''testnet''] # []) \<and>
   map r_startTime (snd (snd (spec_RoundScheduler False 3 (sim_runtime None) 2
       (200 * Millisecond) (200 * Millisecond) sim_hosts sim_start))) = [0, 201000000] \<and>
   map r_startTime (snd (snd (spec_RoundScheduler False 3 (sim_runtime None) 2
       Second (200 * Millisecond) sim_hosts sim_start))) = [0, 1000000000]"
proof -
  have a: "observable (monitorHosts 3 (sim_runtime None) 2 (200 * Millisecond) True sim_hosts
             sim_start) =
     (Completed, \<lparr>sim_clock = 402000000, sim_probes = 4, sim_closed = 1\<rparr>,
      [Green ''localhost'', Red ''testnet''] # [Green ''localhost'', Red ''testnet''] # [])"
    unfolding monitorHosts_interval_is_timeout sim_spec_run_timeout
    by (simp add: rendered_def render_def colour_def)
  have b: "map r_startTime (snd (snd (spec_RoundScheduler False 3 (sim_runtime None) 2
       (200 * Millisecond) (200 * Millisecond) sim_hosts sim_start))) = [0, 201000000]"
    unfolding sim_spec_run_timeout by simp
  have c: "map r_startTime (snd (snd (spec_RoundScheduler False 3 (sim_runtime None) 2
       Second (200 * Millisecond) sim_hosts sim_start))) = [0, 1000000000]"
    unfolding sim_spec_run_interval by simp
  from a b c show ?thesis by (intro conjI)
qed

subsection \<open>Release of the pinger\<close>

lemma monitorHosts_Returned_Close:
  assumes "monitorHosts fuel rt countFlag timeout plainFlag resolvedHosts w = Returned st"
    and "countFlag \<noteq> 0"
  shows "\<exists>cs. calls st = cs @ [CallClose] \<and> CallClose \<notin> set cs"
proof -
  obtain res w1 where n: "ping_New rt w = (res, w1)" by (cases "ping_New rt w") auto
  from assms n obtain pinger where p: "res = Inr pinger"
    by (cases res) (auto simp: monitorHosts_def)
  let ?ex = "monitor_loop fuel rt pinger countFlag timeout plainFlag resolvedHosts
                  (time_Now rt w1) \<lparr>world = w1, count = 0, rounds = [], calls = [CallNew]\<rparr>"
  from assms n p obtain st' where ex: "?ex = Broke st'"
    and st: "st = st'\<lparr>world := snd (Close rt pinger (world st')), calls := calls st' @ [CallClose]\<rparr>"
    by (cases ?ex) (auto simp: monitorHosts_def)
  from monitor_loop_calls [of fuel rt pinger countFlag timeout plainFlag resolvedHosts
      "time_Now rt w1" "\<lparr>world = w1, count = 0, rounds = [], calls = [CallNew]\<rparr>"] ex
  obtain cs where "calls st' = [CallNew] @ cs" "list_all (ping_or_sleep timeout) cs" by auto
  with st have "calls st = ([CallNew] @ cs) @ [CallClose] \<and> CallClose \<notin> set ([CallNew] @ cs)"
    by (auto simp: list_all_iff ping_or_sleep_def)
  then show ?thesis by blast
qed

text \<open>
  C2. A run with the default \<^verbatim>\<open>countFlag = -1\<close> in which the operator's interrupt
  arrives during the first probe: the process ends inside \<^verbatim>\<open>Ping\<close>, the deferred
  \<^verbatim>\<open>Close\<close> never runs (no \<open>CallClose\<close> among the calls, \<open>sim_closed\<close> still 0). The
  same run without the interrupt and with two rounds returns and closes once.
\<close>

theorem monitorHosts_interrupt_skips_Close:
  "monitorHosts 3 (sim_runtime (Some 0)) (-1) (200 * Millisecond) True sim_hosts sim_start =
     Killed \<lparr>world = \<lparr>sim_clock = 0, sim_probes = 0, sim_closed = 0\<rparr>, count = 0, rounds = [],
             calls = [CallNew, CallPing [127, 0, 0, 1] 200000000]\<rparr> \<and>
   monitorHosts 3 (sim_runtime None) 2 (200 * Millisecond) True sim_hosts sim_start =
     Returned \<lparr>world = \<lparr>sim_clock = 402000000, sim_probes = 4, sim_closed = 1\<rparr>, count = 2,
       rounds = [\<lparr>index = 0, target = 0, started = 0,
                  line = [Green ''localhost'', Red ''testnet'']\<rparr>,
                 \<lparr>index = 1, target = 200000000, started = 201000000,
                  line = [Green ''localhost'', Red ''testnet'']\<rparr>],
       calls = [CallNew, CallPing [127, 0, 0, 1] 200000000, CallPing [192, 0, 2, 1] 200000000,
                CallPing [127, 0, 0, 1] 200000000, CallPing [192, 0, 2, 1] 200000000, CallClose]\<rparr>"
  by (simp add: monitorHosts_def eval_nat_numeral round_body_def wait_for_round_def Let_def
        sim_runtime_def sim_start_def sim_hosts_def Millisecond_def)

section \<open>Properties of the Unix transport\<close>

lemma unixPinger_Ping_read:
  assumes "conn up = Some c"
    and "SetDeadline os c (unix_Now os w + timeout) w = (None, w1)"
    and "WriteTo os c (createICMPMessage os (Getpid os w1 AND 65535) 1) ip w1 = (None, w2)"
    and "ReadFrom os c 1500 w2 = (Inr (reply, peer), w3)"
  shows "unixPinger_Ping os up ip timeout w =
           (case ParseMessage os ProtocolICMP reply of
              Inl err \<Rightarrow> (Inl err, w3)
            | Inr rm \<Rightarrow>
                if Type rm = ICMPTypeEchoReply
                then (Inr (unix_Now os w3 - unix_Now os w2), w3)
                else (Inl (UnexpectedICMPMessageType (Type rm)), w3))"
  using assms by (simp add: unixPinger_Ping_def Let_def)

lemma sim_unix_probe:
  "conn \<lparr>conn = Some 0\<rparr> = Some 0 \<and>
   SetDeadline sim_unix 0 (unix_Now sim_unix (sim_unix_start\<lparr>open_conns := [0]\<rparr>) + Second)
       (sim_unix_start\<lparr>open_conns := [0]\<rparr>) =
     (None, sim_unix_start\<lparr>open_conns := [0], deadline := Second\<rparr>) \<and>
   WriteTo sim_unix 0
       (createICMPMessage sim_unix
          (Getpid sim_unix (sim_unix_start\<lparr>open_conns := [0], deadline := Second\<rparr>) AND 65535) 1)
       [192, 0, 2, 1] (sim_unix_start\<lparr>open_conns := [0], deadline := Second\<rparr>) =
     (None, sim_unix_start\<lparr>open_conns := [0], deadline := Second,
              outbox := [([192, 0, 2, 1], [8, 0, 0, 0, 16, 146, 0, 1, 112, 105, 110, 103])]\<rparr>) \<and>
   ReadFrom sim_unix 0 1500
       (sim_unix_start\<lparr>open_conns := [0], deadline := Second,
              outbox := [([192, 0, 2, 1], [8, 0, 0, 0, 16, 146, 0, 1, 112, 105, 110, 103])]\<rparr>) =
     (Inr (stray_reply, [10, 9, 9, 9]),
      sim_unix_start\<lparr>open_conns := [0], deadline := Second,
              outbox := [([192, 0, 2, 1], [8, 0, 0, 0, 16, 146, 0, 1, 112, 105, 110, 103])],
              uclock := 5 * Millisecond, inbox := []\<rparr>) \<and>
   ParseMessage sim_unix ProtocolICMP stray_reply =
     Inr \<lparr>Type = 0, Code = 0, Checksum = 0,
          Body = EchoBody \<lparr>ID = 7, Seq = 99, Data = [1, 2, 3]\<rparr>\<rparr>"
  by (simp add: sim_unix_def sim_unix_start_def createICMPMessage_def sim_Marshal_def
        sim_ParseMessage_def stray_reply_def be16_def ICMPTypeEcho_def ICMPTypeEchoReply_def
        ProtocolICMP_def Second_def Millisecond_def)

text \<open>
  C6. A probe whose deadline could be set, whose request could be written and whose
  read returned data: when the data parse as a message of type Echo Reply the probe
  succeeds, and the round-trip time is the clock when the read returned minus the
  clock when the write returned; when they parse as a message of another type the
  probe fails with the error that names the type; when they do not parse the probe
  fails with the error of the parser.
\<close>

theorem unixPinger_Ping_reply:
  assumes "conn up = Some c"
    and "SetDeadline os c (unix_Now os w + timeout) w = (None, w1)"
    and "WriteTo os c (createICMPMessage os (Getpid os w1 AND 65535) 1) ip w1 = (None, w2)"
    and "ReadFrom os c 1500 w2 = (Inr (reply, peer), w3)"
  shows "(\<forall>rm. ParseMessage os ProtocolICMP reply = Inr rm \<and> Type rm = ICMPTypeEchoReply \<longrightarrow>
            unixPinger_Ping os up ip timeout w = (Inr (unix_Now os w3 - unix_Now os w2), w3)) \<and>
         (\<forall>rm. ParseMessage os ProtocolICMP reply = Inr rm \<and> Type rm \<noteq> ICMPTypeEchoReply \<longrightarrow>
            unixPinger_Ping os up ip timeout w = (Inl (UnexpectedICMPMessageType (Type rm)), w3)) \<and>
         (\<forall>err. ParseMessage os ProtocolICMP reply = Inl err \<longrightarrow>
            unixPinger_Ping os up ip timeout w = (Inl err, w3))"
  by (simp add: unixPinger_Ping_read [OF assms])

theorem unixPinger_Ping_reply_witness:
  "conn \<lparr>conn = Some 0\<rparr> = Some 0 \<and>
   ParseMessage sim_unix ProtocolICMP stray_reply =
     Inr \<lparr>Type = 0, Code = 0, Checksum = 0,
          Body = EchoBody \<lparr>ID = 7, Seq = 99, Data = [1, 2, 3]\<rparr>\<rparr> \<and>
   fst (unixPinger_Ping sim_unix \<lparr>conn = Some 0\<rparr> [192, 0, 2, 1] Second
          (sim_unix_start\<lparr>open_conns := [0]\<rparr>)) = Inr (5 * Millisecond)"
proof -
  note p = sim_unix_probe
  from unixPinger_Ping_reply [OF p [THEN conjunct1] p [THEN conjunct2, THEN conjunct1]
      p [THEN conjunct2, THEN conjunct2, THEN conjunct1]
      p [THEN conjunct2, THEN conjunct2, THEN conjunct2, THEN conjunct1]]
    p [THEN conjunct2, THEN conjunct2, THEN conjunct2, THEN conjunct2]
  have "unixPinger_Ping sim_unix \<lparr>conn = Some 0\<rparr> [192, 0, 2, 1] Second
          (sim_unix_start\<lparr>open_conns := [0]\<rparr>) =
        (Inr (unix_Now sim_unix (sim_unix_start\<lparr>open_conns := [0], deadline := Second,
              outbox := [([192, 0, 2, 1], [8, 0, 0, 0, 16, 146, 0, 1, 112, 105, 110, 103])],
              uclock := 5 * Millisecond, inbox := []\<rparr>) -
              unix_Now sim_unix (sim_unix_start\<lparr>open_conns := [0], deadline := Second,
              outbox := [([192, 0, 2, 1], [8, 0, 0, 0, 16, 146, 0, 1, 112, 105, 110, 103])]\<rparr>)),
         sim_unix_start\<lparr>open_conns := [0], deadline := Second,
              outbox := [([192, 0, 2, 1], [8, 0, 0, 0, 16, 146, 0, 1, 112, 105, 110, 103])],
              uclock := 5 * Millisecond, inbox := []\<rparr>)"
    by (simp add: ICMPTypeEchoReply_def)
  then have "fst (unixPinger_Ping sim_unix \<lparr>conn = Some 0\<rparr> [192, 0, 2, 1] Second
          (sim_unix_start\<lparr>open_conns := [0]\<rparr>)) = Inr (5 * Millisecond)"
    by (simp add: sim_unix_def sim_unix_start_def)
  with p show ?thesis by simp
qed

text \<open>
  C9. Under the same conditions, with a reply that parses: the probe succeeds exactly
  when the type of the parsed message is Echo Reply. Nothing is assumed of the
  sender of the reply, of its identifier, sequence number or payload, or of the
  address probed: the function never looks at them. At the simulated socket a reply
  from 10.9.9.9 with identifier 7, sequence number 99 and payload \<open>[1, 2, 3]\<close> makes
  the probe of 192.0.2.1 (identifier 4242, sequence number 1, payload \<open>ping\<close>)
  succeed.
\<close>

theorem unixPinger_Ping_only_type:
  assumes "conn up = Some c"
    and "SetDeadline os c (unix_Now os w + timeout) w = (None, w1)"
    and "WriteTo os c (createICMPMessage os (Getpid os w1 AND 65535) 1) ip w1 = (None, w2)"
    and "ReadFrom os c 1500 w2 = (Inr (reply, peer), w3)"
    and "ParseMessage os ProtocolICMP reply = Inr rm"
  shows "(\<exists>rtt. fst (unixPinger_Ping os up ip timeout w) = Inr rtt) \<longleftrightarrow>
         Type rm = ICMPTypeEchoReply"
  by (simp add: unixPinger_Ping_read [OF assms(1-4)] assms(5))

theorem unixPinger_Ping_only_type_witness:
  "conn \<lparr>conn = Some 0\<rparr> = Some 0 \<and>
   ReadFrom sim_unix 0 1500
       (sim_unix_start\<lparr>open_conns := [0], deadline := Second,
              outbox := [([192, 0, 2, 1], [8, 0, 0, 0, 16, 146, 0, 1, 112, 105, 110, 103])]\<rparr>) =
     (Inr (stray_reply, [10, 9, 9, 9]),
      sim_unix_start\<lparr>open_conns := [0], deadline := Second,
              outbox := [([192, 0, 2, 1], [8, 0, 0, 0, 16, 146, 0, 1, 112, 105, 110, 103])],
              uclock := 5 * Millisecond, inbox := []\<rparr>) \<and>
   ParseMessage sim_unix ProtocolICMP stray_reply =
     Inr \<lparr>Type = 0, Code = 0, Checksum = 0,
          Body = EchoBody \<lparr>ID = 7, Seq = 99, Data = [1, 2, 3]\<rparr>\<rparr> \<and>
   ParseMessage sim_unix ProtocolICMP (createICMPMessage sim_unix (4242 AND 65535) 1) =
     Inr \<lparr>Type = 8, Code = 0, Checksum = 0,
          Body = EchoBody \<lparr>ID = 4242, Seq = 1, Data = [112, 105, 110, 103]\<rparr>\<rparr> \<and>
   (\<exists>rtt. fst (unixPinger_Ping sim_unix \<lparr>conn = Some 0\<rparr> [192, 0, 2, 1] Second
          (sim_unix_start\<lparr>open_conns := [0]\<rparr>)) = Inr rtt)"
proof -
  note p = sim_unix_probe
  have sent: "ParseMessage sim_unix ProtocolICMP (createICMPMessage sim_unix (4242 AND 65535) 1) =
     Inr \<lparr>Type = 8, Code = 0, Checksum = 0,
          Body = EchoBody \<lparr>ID = 4242, Seq = 1, Data = [112, 105, 110, 103]\<rparr>\<rparr>"
    by (simp add: sim_unix_def createICMPMessage_def sim_Marshal_def
        sim_ParseMessage_def be16_def ICMPTypeEcho_def ICMPTypeEchoReply_def ProtocolICMP_def)
  from unixPinger_Ping_only_type [OF p [THEN conjunct1] p [THEN conjunct2, THEN conjunct1]
      p [THEN conjunct2, THEN conjunct2, THEN conjunct1]
      p [THEN conjunct2, THEN conjunct2, THEN conjunct2, THEN conjunct1]
      p [THEN conjunct2, THEN conjunct2, THEN conjunct2, THEN conjunct2]]
  have "\<exists>rtt. fst (unixPinger_Ping sim_unix \<lparr>conn = Some 0\<rparr> [192, 0, 2, 1] Second
          (sim_unix_start\<lparr>open_conns := [0]\<rparr>)) = Inr rtt"
    by (simp add: ICMPTypeEchoReply_def)
  with p sent show ?thesis by simp
qed

section \<open>Properties of the Windows transport\<close>

lemma Milliseconds_nonneg: "0 \<le> d \<Longrightarrow> Milliseconds d = d div 1000000"
  by (simp add: Milliseconds_def signed_divide_int_def sgn_if)

lemma timeoutMs_of_nonzero: "timeoutMs_of timeout \<noteq> 0"
  by (simp add: timeoutMs_of_def Let_def word_less_1)

lemma timeoutMs_of_in_range:
  assumes "0 \<le> timeout" and "timeout div 1000000 < 2 ^ 32"
  shows "uint (timeoutMs_of timeout) = max 1 (timeout div 1000000)"
proof -
  let ?m = "timeout div 1000000"
  from assms(1) have m0: "0 \<le> ?m" by simp
  have u: "uint (word_of_int ?m :: 32 word) = ?m"
    using m0 assms(2) by (simp add: uint_word_of_int take_bit_int_eq_self)
  show ?thesis
  proof (cases "?m = 0")
    case True
    then show ?thesis
      using assms(1) by (simp add: timeoutMs_of_def Let_def Milliseconds_nonneg)
  next
    case False
    with u have "(word_of_int ?m :: 32 word) \<noteq> 0" by (metis uint_0_eq)
    with u m0 False show ?thesis
      using assms(1) by (simp add: timeoutMs_of_def Let_def Milliseconds_nonneg word_less_1)
  qed
qed

lemma windowsPinger_Ping_call:
  assumes "FindProc os (dll wp) ''IcmpSendEcho'' w = Inr sendProc"
    and "win_To4 os ip = Some ip4"
  shows "windowsPinger_Ping os wp ip timeout w =
           (case IcmpSendEcho os sendProc (handle wp) (LittleEndian_Uint32 ip4)
                   [112, 105, 110, 103] 4 0 44 (timeoutMs_of timeout) w of
              ((ret, reply, err), w1) \<Rightarrow>
                if ret = 0 then (Err (IcmpSendEchoFailed err), w1)
                else (Ok (uint (RoundTripTime reply) * Millisecond), w1))"
  using assms by (simp add: windowsPinger_Ping_def Let_def sizeof_icmpEchoReply_def eval_nat_numeral)

lemma sim_win_newPinger:
  "win_newPinger sim_win (sim_win_start refs) =
     (Inr \<lparr>handle = 1, dll = 1, proc = 14\<rparr>,
      \<lparr>dll_refs = Suc refs, icmp_handles = [1], closed_handles = [], timeouts_passed = []\<rparr>)"
  by (simp add: win_newPinger_def sim_win_def sim_win_start_def)

text \<open>
  C7, as amended. The value handed to \<^verbatim>\<open>IcmpSendEcho\<close> as its timeout is
  \<open>timeoutMs_of timeout\<close>. It is never zero. For a timeout that is not negative and
  shorter than \<open>2 ^ 32\<close> milliseconds it is the timeout in whole milliseconds,
  rounded down, but at least 1. When the call returns a value other than zero, the
  probe succeeds and its round-trip time is the field \<^verbatim>\<open>RoundTripTime\<close> of the reply,
  taken as that many milliseconds.
\<close>

theorem windowsPinger_Ping_timeout:
  assumes "FindProc os (dll wp) ''IcmpSendEcho'' w = Inr sendProc"
    and "win_To4 os ip = Some ip4"
  shows "timeoutMs_of timeout \<noteq> 0 \<and>
         (0 \<le> timeout \<and> timeout div 1000000 < 2 ^ 32 \<longrightarrow>
            uint (timeoutMs_of timeout) = max 1 (timeout div 1000000)) \<and>
         (\<forall>ret reply err w1.
            IcmpSendEcho os sendProc (handle wp) (LittleEndian_Uint32 ip4)
                [112, 105, 110, 103] 4 0 44 (timeoutMs_of timeout) w = ((ret, reply, err), w1) \<longrightarrow>
            windowsPinger_Ping os wp ip timeout w =
              (if ret = 0 then (Err (IcmpSendEchoFailed err), w1)
               else (Ok (uint (RoundTripTime reply) * Millisecond), w1)))"
  by (simp add: timeoutMs_of_nonzero timeoutMs_of_in_range windowsPinger_Ping_call [OF assms])

theorem windowsPinger_Ping_timeout_witness:
  "FindProc sim_win (dll \<lparr>handle = 1, dll = 1, proc = 14\<rparr>) ''IcmpSendEcho''
       \<lparr>dll_refs = 1, icmp_handles = [1], closed_handles = [], timeouts_passed = []\<rparr> = Inr 12 \<and>
   win_To4 sim_win [127, 0, 0, 1] = Some [127, 0, 0, 1] \<and>
   (0::int) \<le> 1500 * Millisecond + 999 \<and> (1500 * Millisecond + 999) div 1000000 < (2::int) ^ 32 \<and>
   uint (timeoutMs_of (1500 * Millisecond + 999)) = 1500 \<and>
   uint (timeoutMs_of 999999) = 1 \<and>
   windowsPinger_Ping sim_win \<lparr>handle = 1, dll = 1, proc = 14\<rparr> [127, 0, 0, 1]
       (1500 * Millisecond + 999)
       \<lparr>dll_refs = 1, icmp_handles = [1], closed_handles = [], timeouts_passed = []\<rparr> =
     (Ok (2 * Millisecond),
      \<lparr>dll_refs = 1, icmp_handles = [1], closed_handles = [], timeouts_passed = [1500]\<rparr>)"
proof -
  let ?wp = "\<lparr>handle = 1, dll = 1, proc = 14\<rparr>"
  let ?w = "\<lparr>dll_refs = 1, icmp_handles = [1], closed_handles = [], timeouts_passed = []\<rparr>"
  have f: "FindProc sim_win (dll ?wp) ''IcmpSendEcho'' ?w = Inr 12"
    by (simp add: sim_win_def)
  have t: "win_To4 sim_win [127, 0, 0, 1] = Some [127, 0, 0, 1]"
    by (simp add: sim_win_def net_To4_def)
  have r: "(0::int) \<le> 1500 * Millisecond + 999 \<and>
           (1500 * Millisecond + 999) div 1000000 < (2::int) ^ 32"
    by (simp add: Millisecond_def)
  have r1: "(0::int) \<le> 999999 \<and> (999999::int) div 1000000 < 2 ^ 32"
    by simp
  have c: "IcmpSendEcho sim_win 12 (handle ?wp) (LittleEndian_Uint32 [127, 0, 0, 1])
             [112, 105, 110, 103] 4 0 44 1500 ?w =
           ((1, sim_reply 0 2, LibError []),
            \<lparr>dll_refs = 1, icmp_handles = [1], closed_handles = [], timeouts_passed = [1500]\<rparr>)"
    by (simp add: sim_win_def LittleEndian_Uint32_def)
  from windowsPinger_Ping_timeout [OF f t, of "1500 * Millisecond + 999"] r
  have u: "uint (timeoutMs_of (1500 * Millisecond + 999)) = 1500"
    by (simp add: Millisecond_def)
  have "timeoutMs_of (1500 * Millisecond + 999) =
          word_of_int (uint (timeoutMs_of (1500 * Millisecond + 999)))"
    by simp
  also have "\<dots> = word_of_int 1500" by (simp only: u)
  also have "\<dots> = (1500 :: 32 word)" by simp
  finally have v: "timeoutMs_of (1500 * Millisecond + 999) = 1500" .
  from windowsPinger_Ping_timeout [OF f t, of 999999] r1
  have u1: "uint (timeoutMs_of 999999) = 1" by simp
  from windowsPinger_Ping_timeout [OF f t, of "1500 * Millisecond + 999"] c v
  have "windowsPinger_Ping sim_win ?wp [127, 0, 0, 1] (1500 * Millisecond + 999) ?w =
     (Ok (2 * Millisecond),
      \<lparr>dll_refs = 1, icmp_handles = [1], closed_handles = [], timeouts_passed = [1500]\<rparr>)"
    by (simp add: sim_reply_def)
  with f t r u u1 show ?thesis by simp
qed

text \<open>
  The claim C7 as it was stated fails for timeouts of \<open>2 ^ 32\<close> milliseconds and
  more. With 4294968 seconds (\<^verbatim>\<open>-t 4294968\<close>, about 49.7 days) the count of
  milliseconds is \<open>2 ^ 32 + 704\<close>, and the facility is handed 704 milliseconds; with
  exactly \<open>2 ^ 32\<close> milliseconds the low 32 bits are zero, and it is handed 1.
\<close>

theorem uint32_timeout_wraps:
  "(0::int) \<le> 4294968 * Second \<and>
   Milliseconds (4294968 * Second) = 4294968000 \<and>
   uint (timeoutMs_of (4294968 * Second)) = 704 \<and>
   uint (timeoutMs_of (4294968 * Second)) \<noteq> max 1 (Milliseconds (4294968 * Second)) \<and>
   timeouts_passed (snd (windowsPinger_Ping sim_win \<lparr>handle = 1, dll = 1, proc = 14\<rparr>
       [127, 0, 0, 1] (4294968 * Second)
       \<lparr>dll_refs = 1, icmp_handles = [1], closed_handles = [], timeouts_passed = []\<rparr>)) = [704] \<and>
   Milliseconds (4294967296 * Millisecond) = 4294967296 \<and>
   uint (timeoutMs_of (4294967296 * Millisecond)) = 1"
  by (simp add: Second_def Millisecond_def Milliseconds_def signed_divide_int_def timeoutMs_of_def
        Let_def windowsPinger_Ping_def sim_win_def net_To4_def LittleEndian_Uint32_def
        sizeof_icmpEchoReply_def)

text \<open>
  C10. When the procedure is found and the address has a 4-byte form, the probe
  succeeds exactly when \<^verbatim>\<open>IcmpSendEcho\<close> returns a value other than zero, and the
  round-trip time is then the field \<^verbatim>\<open>RoundTripTime\<close> of the reply in milliseconds.
  Nothing is assumed of the field \<^verbatim>\<open>Status\<close>: the function never reads it. At the
  simulated facility the probe of 10.0.0.1, answered with status 11003 (destination
  host unreachable), succeeds with 7 ms.
\<close>

theorem windowsPinger_Ping_ignores_Status:
  assumes "FindProc os (dll wp) ''IcmpSendEcho'' w = Inr sendProc"
    and "win_To4 os ip = Some ip4"
    and "IcmpSendEcho os sendProc (handle wp) (LittleEndian_Uint32 ip4)
           [112, 105, 110, 103] 4 0 44 (timeoutMs_of timeout) w = ((ret, reply, err), w1)"
  shows "((\<exists>rtt. fst (windowsPinger_Ping os wp ip timeout w) = Ok rtt) \<longleftrightarrow> ret \<noteq> 0) \<and>
         (ret \<noteq> 0 \<longrightarrow>
            (\<forall>st. windowsPinger_Ping os wp ip timeout w =
                    (Ok (uint (RoundTripTime (reply\<lparr>Status := st\<rparr>)) * Millisecond), w1)))"
  by (simp add: windowsPinger_Ping_call [OF assms(1,2)] assms(3))

theorem windowsPinger_Ping_ignores_Status_witness:
  "FindProc sim_win (dll \<lparr>handle = 1, dll = 1, proc = 14\<rparr>) ''IcmpSendEcho''
       \<lparr>dll_refs = 1, icmp_handles = [1], closed_handles = [], timeouts_passed = []\<rparr> = Inr 12 \<and>
   win_To4 sim_win [10, 0, 0, 1] = Some [10, 0, 0, 1] \<and>
   IcmpSendEcho sim_win 12 (handle \<lparr>handle = 1, dll = 1, proc = 14\<rparr>)
       (LittleEndian_Uint32 [10, 0, 0, 1]) [112, 105, 110, 103] 4 0 44 (timeoutMs_of Second)
       \<lparr>dll_refs = 1, icmp_handles = [1], closed_handles = [], timeouts_passed = []\<rparr> =
     ((1, sim_reply 11003 7, LibError []),
      \<lparr>dll_refs = 1, icmp_handles = [1], closed_handles = [], timeouts_passed = [1000]\<rparr>) \<and>
   Status (sim_reply 11003 7) = 11003 \<and>
   fst (windowsPinger_Ping sim_win \<lparr>handle = 1, dll = 1, proc = 14\<rparr> [10, 0, 0, 1] Second
       \<lparr>dll_refs = 1, icmp_handles = [1], closed_handles = [], timeouts_passed = []\<rparr>) =
     Ok (7 * Millisecond)"
proof -
  let ?wp = "\<lparr>handle = 1, dll = 1, proc = 14\<rparr>"
  let ?w = "\<lparr>dll_refs = 1, icmp_handles = [1], closed_handles = [], timeouts_passed = []\<rparr>"
  have f: "FindProc sim_win (dll ?wp) ''IcmpSendEcho'' ?w = Inr 12"
    by (simp add: sim_win_def)
  have t: "win_To4 sim_win [10, 0, 0, 1] = Some [10, 0, 0, 1]"
    by (simp add: sim_win_def net_To4_def)
  have c: "IcmpSendEcho sim_win 12 (handle ?wp) (LittleEndian_Uint32 [10, 0, 0, 1])
             [112, 105, 110, 103] 4 0 44 (timeoutMs_of Second) ?w =
           ((1, sim_reply 11003 7, LibError []),
            \<lparr>dll_refs = 1, icmp_handles = [1], closed_handles = [], timeouts_passed = [1000]\<rparr>)"
    by (simp add: sim_win_def LittleEndian_Uint32_def timeoutMs_of_def Milliseconds_def
          signed_divide_int_def Second_def Let_def)
  from windowsPinger_Ping_ignores_Status [OF f t c]
  have "fst (windowsPinger_Ping sim_win ?wp [10, 0, 0, 1] Second ?w) = Ok (7 * Millisecond)"
    by (simp add: sim_reply_def)
  with f t c show ?thesis by (simp add: sim_reply_def)
qed

section \<open>Closing a pinger twice\<close>

text \<open>
  Neither \<^verbatim>\<open>Close\<close> changes the struct it is called on, so a second call does what
  the first did, in the world the first left behind: it closes the same connection
  again, and it passes the same handle to \<^verbatim>\<open>IcmpCloseHandle\<close> again whenever the
  procedure is still found.
\<close>

lemma unixPinger_Close_again:
  "conn up = Some c \<Longrightarrow> unixPinger_Close os up w = conn_Close os c w"
  by (simp add: unixPinger_Close_def)

lemma windowsPinger_Close_again:
  "handle wp \<noteq> 0 \<Longrightarrow> FindProc os (dll wp) ''IcmpCloseHandle'' w = Inr closeProc \<Longrightarrow>
   windowsPinger_Close os wp w =
     dll_Release os (dll wp) (IcmpCloseHandle os closeProc (handle wp) w)"
  by (simp add: windowsPinger_Close_def)

text \<open>
  C1. A pinger is created and closed twice, at the simulated socket layer and at the
  simulated helper library. On Unix the first \<^verbatim>\<open>Close\<close> returns no error and the
  second returns the error of closing a closed connection: \<^verbatim>\<open>up.conn\<close> is still set,
  so the second call closes the connection again. On Windows \<^verbatim>\<open>wp.handle\<close> is still
  set as well. When the first \<^verbatim>\<open>Close\<close> dropped the last reference on the library,
  the second finds no procedure and returns the error of releasing the library
  again. When someone else in the process holds a reference on the library (one
  reference at the start), the second \<^verbatim>\<open>Close\<close> returns no error, but it has passed
  the same handle to \<^verbatim>\<open>IcmpCloseHandle\<close> a second time and has dropped a reference
  that was not its own.
\<close>

theorem Close_twice:
  "unix_newPinger sim_unix sim_unix_start =
     (Inr \<lparr>conn = Some 0\<rparr>, sim_unix_start\<lparr>open_conns := [0]\<rparr>) \<and>
   unixPinger_Close sim_unix \<lparr>conn = Some 0\<rparr> (sim_unix_start\<lparr>open_conns := [0]\<rparr>) =
     (None, sim_unix_start) \<and>
   unixPinger_Close sim_unix \<lparr>conn = Some 0\<rparr> sim_unix_start =
     (Some (LibError ''use of closed network connection''), sim_unix_start) \<and>
   win_newPinger sim_win (sim_win_start 0) =
     (Inr \<lparr>handle = 1, dll = 1, proc = 14\<rparr>,
      \<lparr>dll_refs = 1, icmp_handles = [1], closed_handles = [], timeouts_passed = []\<rparr>) \<and>
   windowsPinger_Close sim_win \<lparr>handle = 1, dll = 1, proc = 14\<rparr>
       \<lparr>dll_refs = 1, icmp_handles = [1], closed_handles = [], timeouts_passed = []\<rparr> =
     (None, \<lparr>dll_refs = 0, icmp_handles = [], closed_handles = [1], timeouts_passed = []\<rparr>) \<and>
   windowsPinger_Close sim_win \<lparr>handle = 1, dll = 1, proc = 14\<rparr>
       \<lparr>dll_refs = 0, icmp_handles = [], closed_handles = [1], timeouts_passed = []\<rparr> =
     (Some (LibError ''The specified module could not be found.''),
      \<lparr>dll_refs = 0, icmp_handles = [], closed_handles = [1], timeouts_passed = []\<rparr>) \<and>
   win_newPinger sim_win (sim_win_start 1) =
     (Inr \<lparr>handle = 1, dll = 1, proc = 14\<rparr>,
      \<lparr>dll_refs = 2, icmp_handles = [1], closed_handles = [], timeouts_passed = []\<rparr>) \<and>
   windowsPinger_Close sim_win \<lparr>handle = 1, dll = 1, proc = 14\<rparr>
       \<lparr>dll_refs = 2, icmp_handles = [1], closed_handles = [], timeouts_passed = []\<rparr> =
     (None, \<lparr>dll_refs = 1, icmp_handles = [], closed_handles = [1], timeouts_passed = []\<rparr>) \<and>
   windowsPinger_Close sim_win \<lparr>handle = 1, dll = 1, proc = 14\<rparr>
       \<lparr>dll_refs = 1, icmp_handles = [], closed_handles = [1], timeouts_passed = []\<rparr> =
     (None, \<lparr>dll_refs = 0, icmp_handles = [], closed_handles = [1, 1], timeouts_passed = []\<rparr>)"
proof -
  have u: "unix_newPinger sim_unix sim_unix_start =
       (Inr \<lparr>conn = Some 0\<rparr>, sim_unix_start\<lparr>open_conns := [0]\<rparr>) \<and>
     unixPinger_Close sim_unix \<lparr>conn = Some 0\<rparr> (sim_unix_start\<lparr>open_conns := [0]\<rparr>) =
       (None, sim_unix_start) \<and>
     unixPinger_Close sim_unix \<lparr>conn = Some 0\<rparr> sim_unix_start =
       (Some (LibError ''use of closed network connection''), sim_unix_start)"
    by (simp add: unix_newPinger_def unixPinger_Close_def sim_unix_def sim_unix_start_def)
  have n0: "win_newPinger sim_win (sim_win_start 0) =
     (Inr \<lparr>handle = 1, dll = 1, proc = 14\<rparr>,
      \<lparr>dll_refs = 1, icmp_handles = [1], closed_handles = [], timeouts_passed = []\<rparr>)"
    by (simp add: sim_win_newPinger)
  have n1: "win_newPinger sim_win (sim_win_start 1) =
     (Inr \<lparr>handle = 1, dll = 1, proc = 14\<rparr>,
      \<lparr>dll_refs = 2, icmp_handles = [1], closed_handles = [], timeouts_passed = []\<rparr>)"
    by (simp add: sim_win_newPinger eval_nat_numeral)
  have c: "windowsPinger_Close sim_win \<lparr>handle = 1, dll = 1, proc = 14\<rparr>
         \<lparr>dll_refs = 1, icmp_handles = [1], closed_handles = [], timeouts_passed = []\<rparr> =
       (None, \<lparr>dll_refs = 0, icmp_handles = [], closed_handles = [1], timeouts_passed = []\<rparr>) \<and>
     windowsPinger_Close sim_win \<lparr>handle = 1, dll = 1, proc = 14\<rparr>
         \<lparr>dll_refs = 0, icmp_handles = [], closed_handles = [1], timeouts_passed = []\<rparr> =
       (Some (LibError ''The specified module could not be found.''),
        \<lparr>dll_refs = 0, icmp_handles = [], closed_handles = [1], timeouts_passed = []\<rparr>) \<and>
     windowsPinger_Close sim_win \<lparr>handle = 1, dll = 1, proc = 14\<rparr>
         \<lparr>dll_refs = 2, icmp_handles = [1], closed_handles = [], timeouts_passed = []\<rparr> =
       (None, \<lparr>dll_refs = 1, icmp_handles = [], closed_handles = [1], timeouts_passed = []\<rparr>) \<and>
     windowsPinger_Close sim_win \<lparr>handle = 1, dll = 1, proc = 14\<rparr>
         \<lparr>dll_refs = 1, icmp_handles = [], closed_handles = [1], timeouts_passed = []\<rparr> =
       (None, \<lparr>dll_refs = 0, icmp_handles = [], closed_handles = [1, 1], timeouts_passed = []\<rparr>)"
    by (simp add: windowsPinger_Close_def sim_win_def Let_def)
  from u n0 n1 c show ?thesis by (intro conjI) (elim conjE, assumption)+
qed

end
